theory Spec2Isabelle
  imports Complex_Main "HOL-Library.Multiset"
begin

section \<open>The depth-span pipeline of vesta's UniverseRenderer\<close>

text \<open>
  A shallow embedding of \<^verbatim>\<open>src/thirdparty/vesta/UniverseRenderer.cpp\<close>: the
  view-set state machine, the visible-item collector, the light selector and the
  depth-buffer span partitioner. OpenGL calls, drawing and shadow-map rendering change no
  member that the modelled functions read and are left out.

  Numbers. The C++ \<^verbatim>\<open>float\<close> and \<^verbatim>\<open>double\<close> values are modelled as
  \<^typ>\<open>real\<close>: comparisons and arithmetic are exact. Rounding, infinities and NaN are
  outside the model; in particular a division by zero (which yields an infinity or NaN in
  C++) is outside the model, and the theorems about ratios are stated for positive far
  distances. Counters and indices
  (\<^verbatim>\<open>unsigned int\<close>) are \<^typ>\<open>nat\<close>; no list of the model is long enough to
  wrap one.
\<close>

subsection \<open>Constants\<close>

definition MinimumNearPlaneDistance :: real where
  "MinimumNearPlaneDistance = 0.00001"

definition MaximumFarPlaneDistance :: real where
  "MaximumFarPlaneDistance = 1000000000000"

definition MinimumNearFarRatio :: real where
  "MinimumNearFarRatio = 0.001"

definition PreferredNearFarRatio :: real where
  "PreferredNearFarRatio = 0.002"

text \<open>Local to \<^verbatim>\<open>renderView\<close>: the ratio used for the extra spans.\<close>

definition MaxFarNearRatio :: real where
  "MaxFarNearRatio = 10000"

subsection \<open>Collaborators\<close>

text \<open>
  The classes below are declared outside the modelled file. Each is a record of what the
  renderer reads from it. A quaternion is represented by the rotation it applies to a
  vector and the rotation its conjugate applies (Eigen's \<^verbatim>\<open>q * v\<close>,
  \<^verbatim>\<open>q.conjugate() * v\<close> and \<^verbatim>\<open>q.conjugate().toRotationMatrix() * v\<close>); a
  frustum by its sphere intersection test.
\<close>

type_synonym Vector3 = "real \<times> real \<times> real"

definition vsub :: "Vector3 \<Rightarrow> Vector3 \<Rightarrow> Vector3" where
  "vsub a b = (case a of (ax, ay, az) \<Rightarrow> case b of (bx, by, bz) \<Rightarrow> (ax - bx, ay - by, az - bz))"

definition vneg :: "Vector3 \<Rightarrow> Vector3" where
  "vneg a = (case a of (ax, ay, az) \<Rightarrow> (- ax, - ay, - az))"

definition vscale :: "Vector3 \<Rightarrow> real \<Rightarrow> Vector3" where
  "vscale a f = (case a of (ax, ay, az) \<Rightarrow> (ax * f, ay * f, az * f))"

definition vnorm :: "Vector3 \<Rightarrow> real" where
  "vnorm a = (case a of (ax, ay, az) \<Rightarrow> sqrt (ax * ax + ay * ay + az * az))"

definition vz :: "Vector3 \<Rightarrow> real" where
  "vz a = (case a of (ax, ay, az) \<Rightarrow> az)"

record Quaternion =
  rotate :: "Vector3 \<Rightarrow> Vector3"
  conjugateRotate :: "Vector3 \<Rightarrow> Vector3"

record Frustum =
  intersects :: "Vector3 \<Rightarrow> real \<Rightarrow> bool"

datatype ClippingPolicy = PreserveDepthPrecision | PreventClipping | SplitToPreventClipping

record Geometry =
  boundingSphereRadius :: real
  clippingPolicy :: ClippingPolicy
  nearPlaneDistance :: "Vector3 \<Rightarrow> real"

record LightSource =
  range :: real
  isShadowCaster :: bool

datatype DepthAdjustment = NoAdjustment | AdjustToFront

text \<open>
  A visualizer's orientation depends on its owning entity and the time; the field below
  is that function with the owner already supplied.
\<close>

record Visualizer =
  isVisible :: bool
  depthAdjustment :: DepthAdjustment
  geometry :: Geometry
  orientation :: "real \<Rightarrow> Quaternion"

text \<open>
  An entity's visualizer table is a map iterated in key order; the model keeps the
  visualizers in that order.
\<close>

record Entity =
  isVisible :: "real \<Rightarrow> bool"
  position :: "real \<Rightarrow> Vector3"
  orientation :: "real \<Rightarrow> Quaternion"
  geometry :: "Geometry option"
  lightSource :: "LightSource option"
  visualizers :: "Visualizer list"

record Universe =
  entities :: "Entity list"

record Viewport =
  width :: int
  height :: int

definition aspectRatio :: "Viewport \<Rightarrow> real" where
  "aspectRatio vp = real_of_int (width vp) / real_of_int (height vp)"

record PlanarProjection =
  fovY :: real
  nearDistance :: real
  farDistance :: real
  frustum :: Frustum

text \<open>The two members of the render context that the pipeline sets and reads back.\<close>

record RenderContext =
  cameraOrientation :: Quaternion
  pixelSize :: real

text \<open>A framebuffer handle (\<^verbatim>\<open>counted_ptr<Framebuffer>\<close>, \<open>None\<close> when null).\<close>

record Framebuffer =
  isValid :: bool

subsection \<open>The renderer's own data\<close>

datatype RenderStatus =
  RenderOk | RendererUninitialized | RendererBadParameter
  | RenderViewSetAlreadyStarted | RenderNoViewSet

record VisibleItem =
  entity :: Entity
  geometry :: Geometry
  position :: Vector3
  cameraRelativePosition :: Vector3
  orientation :: Quaternion
  boundingRadius :: real
  nearDistance :: real
  farDistance :: real
  outsideFrustum :: bool

record DepthBufferSpan =
  backItemIndex :: nat
  itemCount :: nat
  farDistance :: real
  nearDistance :: real

record LightSourceItem =
  lightSource :: "LightSource option"
  position :: Vector3

record VisibleLightSourceItem =
  lightSource :: "LightSource option"
  position :: Vector3
  cameraRelativePosition :: Vector3

record UniverseRenderer =
  m_renderContext :: "RenderContext option"
  m_universe :: "Universe option"
  m_currentTime :: real
  m_shadowsEnabled :: bool
  m_visualizersEnabled :: bool
  m_skyLayersEnabled :: bool
  m_shadowMaps :: "Framebuffer option list"
  m_lightSources :: "LightSourceItem list"
  m_visibleLightSources :: "VisibleLightSourceItem list"
  m_visibleItems :: "VisibleItem list"
  m_splittableItems :: "VisibleItem list"
  m_depthBufferSpans :: "DepthBufferSpan list"
  m_mergedDepthBufferSpans :: "DepthBufferSpan list"
  m_viewFrustum :: Frustum

subsection \<open>splitDepthBuffer\<close>

text \<open>
  One iteration of the loop of \<^verbatim>\<open>splitDepthBuffer\<close> for the item at index \<open>i\<close>;
  \<^verbatim>\<open>m_depthBufferSpans.back()\<close> is the last span of the list.
\<close>

definition splitStep :: "VisibleItem \<Rightarrow> nat \<Rightarrow> DepthBufferSpan list \<Rightarrow> DepthBufferSpan list" where
  "splitStep item i spans =
     (if spans = [] then
        [\<lparr> backItemIndex = i, itemCount = 1,
            DepthBufferSpan.farDistance = VisibleItem.farDistance item,
            DepthBufferSpan.nearDistance = VisibleItem.nearDistance item \<rparr>]
      else if VisibleItem.farDistance item < DepthBufferSpan.nearDistance (last spans) then
        spans @
        [\<lparr> backItemIndex = i, itemCount = 0,
            DepthBufferSpan.farDistance = DepthBufferSpan.nearDistance (last spans),
            DepthBufferSpan.nearDistance = VisibleItem.farDistance item \<rparr>,
         \<lparr> backItemIndex = i, itemCount = 1,
            DepthBufferSpan.farDistance = VisibleItem.farDistance item,
            DepthBufferSpan.nearDistance = VisibleItem.nearDistance item \<rparr>]
      else
        butlast spans @
        [(last spans)\<lparr> itemCount := itemCount (last spans) + 1,
            DepthBufferSpan.nearDistance :=
              (if VisibleItem.nearDistance item < DepthBufferSpan.nearDistance (last spans)
               then VisibleItem.nearDistance item
               else DepthBufferSpan.nearDistance (last spans)) \<rparr>])"

text \<open>
  The loop \<^verbatim>\<open>for (int i = size - 1; i >= 0; --i)\<close>: \<open>splitLoop items n spans\<close> has
  the \<open>n\<close> items at indices \<open>n - 1, ..., 0\<close> still to visit.
\<close>

fun splitLoop :: "VisibleItem list \<Rightarrow> nat \<Rightarrow> DepthBufferSpan list \<Rightarrow> DepthBufferSpan list" where
  "splitLoop items 0 spans = spans"
| "splitLoop items (Suc i) spans = splitLoop items i (splitStep (items ! i) i spans)"

definition splitDepthBuffer :: "VisibleItem list \<Rightarrow> DepthBufferSpan list" where
  "splitDepthBuffer items = splitLoop items (length items) []"

subsection \<open>coalesceDepthBuffer\<close>

text \<open>
  The inner loop: starting at \<open>j\<close> with \<open>itemCount\<close> items collected, absorb the
  following spans while their near distance over the group's far distance is not below
  the preferred ratio. It returns the final \<open>j\<close> and item count. The loop is entered
  only with \<open>i < size\<close>, so \<^verbatim>\<open>size - 1\<close> does not wrap.
\<close>

function mergeScan :: "DepthBufferSpan list \<Rightarrow> real \<Rightarrow> nat \<Rightarrow> nat \<Rightarrow> nat \<times> nat" where
  "mergeScan spans farD j cnt =
     (if j < length spans - 1 then
        (if DepthBufferSpan.nearDistance (spans ! (j + 1)) / farD < PreferredNearFarRatio
         then (j, cnt)
         else mergeScan spans farD (j + 1) (cnt + itemCount (spans ! (j + 1))))
      else (j, cnt))"
  by pat_completeness auto
termination
  by (relation "measure (\<lambda>(spans, farD, j, cnt). length spans - j)") auto

declare mergeScan.simps [simp del]

function coalesceLoop :: "DepthBufferSpan list \<Rightarrow> nat \<Rightarrow> DepthBufferSpan list \<Rightarrow> DepthBufferSpan list" where
  "coalesceLoop spans i merged =
     (if i < length spans then
        coalesceLoop spans
          (fst (mergeScan spans (DepthBufferSpan.farDistance (spans ! i)) i (itemCount (spans ! i))) + 1)
          (merged @
           [\<lparr> backItemIndex = backItemIndex (spans ! i),
               itemCount = snd (mergeScan spans (DepthBufferSpan.farDistance (spans ! i)) i (itemCount (spans ! i))),
               DepthBufferSpan.farDistance = DepthBufferSpan.farDistance (spans ! i),
               DepthBufferSpan.nearDistance =
                 DepthBufferSpan.nearDistance
                   (spans ! fst (mergeScan spans (DepthBufferSpan.farDistance (spans ! i)) i (itemCount (spans ! i)))) \<rparr>])
      else merged)"
  by pat_completeness auto
termination
proof (relation "measure (\<lambda>(spans, i, merged). length spans - i)")
  show "wf (measure (\<lambda>(spans, i, merged). length spans - i))"
    by simp
next
  fix spans :: "DepthBufferSpan list" and i :: nat and merged :: "DepthBufferSpan list"
  assume lt: "i < length spans"
  have ge: "j \<le> fst (mergeScan spans farD j cnt)" for farD j cnt
    by (induction spans farD j cnt rule: mergeScan.induct)
       (subst mergeScan.simps, auto dest: Suc_leD)
  from ge [of i] lt
  show "((spans, fst (mergeScan spans (DepthBufferSpan.farDistance (spans ! i)) i (itemCount (spans ! i))) + 1,
          merged @
          [\<lparr> backItemIndex = backItemIndex (spans ! i),
              itemCount = snd (mergeScan spans (DepthBufferSpan.farDistance (spans ! i)) i (itemCount (spans ! i))),
              DepthBufferSpan.farDistance = DepthBufferSpan.farDistance (spans ! i),
              DepthBufferSpan.nearDistance =
                DepthBufferSpan.nearDistance
                  (spans ! fst (mergeScan spans (DepthBufferSpan.farDistance (spans ! i)) i (itemCount (spans ! i)))) \<rparr>]),
         (spans, i, merged)) \<in> measure (\<lambda>(spans, i, merged). length spans - i)"
    by (simp add: less_Suc_eq_le diff_less_mono2)
qed

declare coalesceLoop.simps [simp del]

definition coalesceDepthBuffer :: "DepthBufferSpan list \<Rightarrow> DepthBufferSpan list" where
  "coalesceDepthBuffer spans = coalesceLoop spans 0 []"

subsection \<open>Construction and initialization\<close>

text \<open>
  What C++ leaves undefined is a value of the model: reading element 0 of an empty
  vector is \<open>OutOfRange\<close>, calling through a null pointer is \<open>NullPointer\<close>. A function
  that can do either returns \<open>Fault + result\<close>.
\<close>

datatype Fault = OutOfRange | NullPointer

text \<open>
  The constructor. The vectors start empty; the default-constructed view frustum is a
  parameter.
\<close>

definition UniverseRenderer_new :: "Frustum \<Rightarrow> UniverseRenderer" where
  "UniverseRenderer_new defaultFrustum =
     \<lparr> m_renderContext = None, m_universe = None, m_currentTime = 0,
       m_shadowsEnabled = False, m_visualizersEnabled = True, m_skyLayersEnabled = True,
       m_shadowMaps = [], m_lightSources = [], m_visibleLightSources = [],
       m_visibleItems = [], m_splittableItems = [], m_depthBufferSpans = [],
       m_mergedDepthBufferSpans = [], m_viewFrustum = defaultFrustum \<rparr>"

text \<open>
  \<^verbatim>\<open>setShadowsEnabled\<close> reads \<^verbatim>\<open>m_shadowMaps[0]\<close> without looking at the size of
  the vector.
\<close>

definition setShadowsEnabled :: "bool \<Rightarrow> UniverseRenderer \<Rightarrow> Fault + UniverseRenderer" where
  "setShadowsEnabled enable r =
     (case m_shadowMaps r of
        [] \<Rightarrow> Inl OutOfRange
      | shadowMap # _ \<Rightarrow>
          (case shadowMap of
             None \<Rightarrow> Inr r
           | Some fb \<Rightarrow> if isValid fb then Inr (r\<lparr> m_shadowsEnabled := enable \<rparr>) else Inr r))"

definition setVisualizersEnabled :: "bool \<Rightarrow> UniverseRenderer \<Rightarrow> UniverseRenderer" where
  "setVisualizersEnabled enable r = r\<lparr> m_visualizersEnabled := enable \<rparr>"

definition setSkyLayersEnabled :: "bool \<Rightarrow> UniverseRenderer \<Rightarrow> UniverseRenderer" where
  "setSkyLayersEnabled enable r = r\<lparr> m_skyLayersEnabled := enable \<rparr>"

text \<open>\<open>created\<close> is what \<^verbatim>\<open>RenderContext::Create()\<close> returns (null on failure).\<close>

definition initializeGraphics :: "RenderContext option \<Rightarrow> UniverseRenderer \<Rightarrow> bool \<times> UniverseRenderer" where
  "initializeGraphics created r =
     (if m_renderContext r \<noteq> None then (True, r)
      else (created \<noteq> None, r\<lparr> m_renderContext := created \<rparr>))"

text \<open>
  The allocation loop of \<^verbatim>\<open>initializeShadowMaps\<close>: \<open>n\<close> buffers are still to be
  created, the next one is number \<open>i\<close>. \<open>create i mapSize\<close> is what the \<open>i\<close>-th call of
  \<^verbatim>\<open>Framebuffer::CreateDepthOnlyFramebuffer(size, size)\<close> returns.
\<close>

fun createShadowMaps ::
  "(nat \<Rightarrow> nat \<Rightarrow> Framebuffer option) \<Rightarrow> nat \<Rightarrow> nat \<Rightarrow> nat \<Rightarrow> Framebuffer option list
    \<Rightarrow> bool \<times> Framebuffer option list" where
  "createShadowMaps create mapSize i 0 maps = (True, maps)"
| "createShadowMaps create mapSize i (Suc n) maps =
     (case create i mapSize of
        None \<Rightarrow> (False, [])
      | Some fb \<Rightarrow> createShadowMaps create mapSize (i + 1) n (maps @ [Some fb]))"

text \<open>
  \<open>supported\<close> is the value of \<^verbatim>\<open>shadowsSupported()\<close>, \<open>MaxShadowMaps\<close> the constant
  of the class declaration and \<open>maxTexSize\<close> the driver's \<^verbatim>\<open>GL_MAX_TEXTURE_SIZE\<close>.
\<close>

definition initializeShadowMaps ::
  "bool \<Rightarrow> nat \<Rightarrow> nat \<Rightarrow> (nat \<Rightarrow> nat \<Rightarrow> Framebuffer option) \<Rightarrow> nat \<Rightarrow> nat \<Rightarrow> UniverseRenderer
    \<Rightarrow> bool \<times> UniverseRenderer" where
  "initializeShadowMaps supported MaxShadowMaps maxTexSize create shadowMapSize shadowMapCount r =
     (if m_renderContext r = None then (False, r)
      else if \<not> supported then (False, r)
      else
        (case createShadowMaps create (min maxTexSize shadowMapSize) 0
                (if shadowMapCount > MaxShadowMaps then MaxShadowMaps else shadowMapCount) [] of
           (ok, maps) \<Rightarrow> (ok, r\<lparr> m_shadowsEnabled := False, m_shadowMaps := maps \<rparr>)))"

subsection \<open>The view-set state machine\<close>

text \<open>The light sources of the visible entities, in entity order.\<close>

fun entityLightSources :: "real \<Rightarrow> Entity list \<Rightarrow> LightSourceItem list" where
  "entityLightSources t [] = []"
| "entityLightSources t (ent # rest) =
     (case Entity.lightSource ent of
        None \<Rightarrow> entityLightSources t rest
      | Some light \<Rightarrow>
          if Entity.isVisible ent t
          then \<lparr> LightSourceItem.lightSource = Some light,
                 LightSourceItem.position = Entity.position ent t \<rparr>
               # entityLightSources t rest
          else entityLightSources t rest)"

text \<open>The Sun: a null light source at the origin.\<close>

definition sunItem :: LightSourceItem where
  "sunItem = \<lparr> LightSourceItem.lightSource = None, LightSourceItem.position = (0, 0, 0) \<rparr>"

definition beginViewSet :: "Universe option \<Rightarrow> real \<Rightarrow> UniverseRenderer \<Rightarrow> RenderStatus \<times> UniverseRenderer" where
  "beginViewSet universe tsec r =
     (if m_renderContext r = None then (RendererUninitialized, r)
      else case universe of
        None \<Rightarrow> (RendererBadParameter, r)
      | Some u \<Rightarrow>
          if m_universe r \<noteq> None then (RenderViewSetAlreadyStarted, r)
          else (RenderOk,
                r\<lparr> m_universe := Some u, m_currentTime := tsec,
                   m_lightSources := sunItem # entityLightSources tsec (entities u) \<rparr>))"

definition endViewSet :: "UniverseRenderer \<Rightarrow> RenderStatus \<times> UniverseRenderer" where
  "endViewSet r =
     (if m_universe r = None then (RenderNoViewSet, r)
      else (RenderOk, r\<lparr> m_universe := None \<rparr>))"

subsection \<open>The light selector\<close>

text \<open>
  \<^verbatim>\<open>std::sort\<close> is library code. The standard promises that the result is a
  permutation of the input in which no element is ordered before an earlier one by the
  comparison; the order of equivalent elements is unspecified. The functions that sort
  take the sort as a parameter, and \<open>std_sort_contract\<close> is what the standard promises of
  it. The sort of the GNU C++ library, \<open>std_sort\<close>, follows the light selector.
\<close>

definition std_sort_contract :: "('a \<Rightarrow> 'a \<Rightarrow> bool) \<Rightarrow> ('a list \<Rightarrow> 'a list) \<Rightarrow> bool" where
  "std_sort_contract lt srt =
     (\<forall>xs. mset (srt xs) = mset xs \<and> sorted_wrt (\<lambda>a b. \<not> lt b a) (srt xs))"

text \<open>The value \<^verbatim>\<open>shadow0\<close> (and \<^verbatim>\<open>shadow1\<close>) of the predicate: 1 for the Sun.\<close>

definition shadowFlag :: "VisibleLightSourceItem \<Rightarrow> int" where
  "shadowFlag light =
     (case VisibleLightSourceItem.lightSource light of
        None \<Rightarrow> 1
      | Some l \<Rightarrow> if isShadowCaster l then 1 else 0)"

definition lightCastsShadowsPredicate :: "VisibleLightSourceItem \<Rightarrow> VisibleLightSourceItem \<Rightarrow> bool" where
  "lightCastsShadowsPredicate light0 light1 = (shadowFlag light0 > shadowFlag light1)"

text \<open>The expression \<^verbatim>\<open>(radius / float(distance)) / pixelSize\<close> of both culling tests.\<close>

definition projectedSize :: "real \<Rightarrow> real \<Rightarrow> real \<Rightarrow> real" where
  "projectedSize radius distance pxSize = (radius / distance) / pxSize"

text \<open>The flag \<^verbatim>\<open>cull\<close> of \<^verbatim>\<open>buildVisibleLightSourceList\<close> for one light.\<close>

definition lightCull :: "RenderContext \<Rightarrow> Frustum \<Rightarrow> Vector3 \<Rightarrow> LightSourceItem \<Rightarrow> bool" where
  "lightCull rc viewFrustum cameraPosition lsi =
     (case LightSourceItem.lightSource lsi of
        Some light \<Rightarrow>
          if projectedSize (range light)
               (vnorm (vsub (LightSourceItem.position lsi) cameraPosition)) (pixelSize rc) < 1
          then True
          else if \<not> intersects viewFrustum
                    (conjugateRotate (cameraOrientation rc)
                       (vsub (LightSourceItem.position lsi) cameraPosition))
                    (range light)
               then True
               else False
      | None \<Rightarrow> False)"

definition visibleLight :: "Vector3 \<Rightarrow> LightSourceItem \<Rightarrow> VisibleLightSourceItem" where
  "visibleLight cameraPosition lsi =
     \<lparr> VisibleLightSourceItem.lightSource = LightSourceItem.lightSource lsi,
       VisibleLightSourceItem.position = LightSourceItem.position lsi,
       VisibleLightSourceItem.cameraRelativePosition =
         vsub (LightSourceItem.position lsi) cameraPosition \<rparr>"

fun keepVisibleLights ::
  "RenderContext \<Rightarrow> Frustum \<Rightarrow> Vector3 \<Rightarrow> LightSourceItem list \<Rightarrow> VisibleLightSourceItem list" where
  "keepVisibleLights rc viewFrustum cameraPosition [] = []"
| "keepVisibleLights rc viewFrustum cameraPosition (lsi # rest) =
     (if \<not> lightCull rc viewFrustum cameraPosition lsi
      then visibleLight cameraPosition lsi # keepVisibleLights rc viewFrustum cameraPosition rest
      else keepVisibleLights rc viewFrustum cameraPosition rest)"

text \<open>
  \<open>rc\<close> is the render context behind \<^verbatim>\<open>m_renderContext\<close>, which the caller has
  dereferenced before.
\<close>

definition buildVisibleLightSourceList ::
  "(VisibleLightSourceItem list \<Rightarrow> VisibleLightSourceItem list) \<Rightarrow> Vector3 \<Rightarrow> RenderContext
    \<Rightarrow> UniverseRenderer \<Rightarrow> UniverseRenderer" where
  "buildVisibleLightSourceList sortLights cameraPosition rc r =
     r\<lparr> m_visibleLightSources :=
          sortLights (keepVisibleLights rc (m_viewFrustum r) cameraPosition (m_lightSources r)) \<rparr>"

subsection \<open>std::sort\<close>

text \<open>
  \<^verbatim>\<open>std::sort\<close> as the GNU C++ library implements it (libstdc++,
  \<^verbatim>\<open>bits/stl_algo.h\<close> and \<^verbatim>\<open>bits/stl_heap.h\<close>, GCC 5 and later): an
  introsort that partitions ranges of more than 16 elements around a median of three, falls
  back to heap sort when the depth limit is used up, and finishes with an insertion sort.
  The array is a list, iterators are indices into it; \<open>first\<close> and \<open>last'\<close> delimit
  the range \<^verbatim>\<open>[first, last)\<close>. The functions of the renderer that sort take the sort
  as a parameter; this is the one they get in a program built with GCC.

  \<^verbatim>\<open>std::__lg\<close>: the position of the highest bit set.
\<close>

function lg :: "nat \<Rightarrow> nat" where
  "lg n = (if n < 2 then 0 else lg (n div 2) + 1)"
  by pat_completeness auto
termination
  by (relation "measure (\<lambda>n. n)") auto

declare lg.simps [simp del]

text \<open>\<^verbatim>\<open>std::iter_swap\<close>.\<close>

definition iter_swap :: "'a list \<Rightarrow> nat \<Rightarrow> nat \<Rightarrow> 'a list" where
  "iter_swap a i j = a[i := a ! j, j := a ! i]"

text \<open>
  \<^verbatim>\<open>std::__move_median_to_first\<close>: swaps the median of the elements at \<open>ia\<close>,
  \<open>ib\<close> and \<open>ic\<close> with the element at \<open>result\<close>.
\<close>

definition move_median_to_first ::
  "('a \<Rightarrow> 'a \<Rightarrow> bool) \<Rightarrow> 'a list \<Rightarrow> nat \<Rightarrow> nat \<Rightarrow> nat \<Rightarrow> nat \<Rightarrow> 'a list" where
  "move_median_to_first lt a result ia ib ic =
     (if lt (a ! ia) (a ! ib) then
        (if lt (a ! ib) (a ! ic) then iter_swap a result ib
         else if lt (a ! ia) (a ! ic) then iter_swap a result ic
         else iter_swap a result ia)
      else if lt (a ! ia) (a ! ic) then iter_swap a result ia
      else if lt (a ! ib) (a ! ic) then iter_swap a result ic
      else iter_swap a result ib)"

text \<open>
  The two inner loops of \<^verbatim>\<open>std::__unguarded_partition\<close>,
  \<^verbatim>\<open>while (__comp(__first, __pivot)) ++__first;\<close> and
  \<^verbatim>\<open>while (__comp(__pivot, __last)) --__last;\<close>. The library has no bound check
  (the median and the pivot stop the scans when the comparison is a strict weak order); the
  model stops at the ends of the array, where the library would read out of range.
\<close>

function scan_up :: "('a \<Rightarrow> 'a \<Rightarrow> bool) \<Rightarrow> 'a list \<Rightarrow> nat \<Rightarrow> nat \<Rightarrow> nat" where
  "scan_up lt a pivot first =
     (if first < length a \<and> lt (a ! first) (a ! pivot) then scan_up lt a pivot (first + 1)
      else first)"
  by pat_completeness auto
termination
  by (relation "measure (\<lambda>(lt, a, pivot, first). length a - first)") auto

declare scan_up.simps [simp del]

function scan_down :: "('a \<Rightarrow> 'a \<Rightarrow> bool) \<Rightarrow> 'a list \<Rightarrow> nat \<Rightarrow> nat \<Rightarrow> nat" where
  "scan_down lt a pivot last' =
     (if 0 < last' \<and> lt (a ! pivot) (a ! last') then scan_down lt a pivot (last' - 1)
      else last')"
  by pat_completeness auto
termination
  by (relation "measure (\<lambda>(lt, a, pivot, last'). last')") auto

declare scan_down.simps [simp del]

text \<open>
  \<^verbatim>\<open>std::__unguarded_partition\<close>; it returns the array and the cut. The second
  scan starts after \<^verbatim>\<open>--__last\<close>.
\<close>

function unguarded_partition ::
  "('a \<Rightarrow> 'a \<Rightarrow> bool) \<Rightarrow> 'a list \<Rightarrow> nat \<Rightarrow> nat \<Rightarrow> nat \<Rightarrow> 'a list \<times> nat" where
  "unguarded_partition lt a first last' pivot =
     (if \<not> scan_up lt a pivot first < scan_down lt a pivot (last' - 1)
      then (a, scan_up lt a pivot first)
      else unguarded_partition lt
             (iter_swap a (scan_up lt a pivot first) (scan_down lt a pivot (last' - 1)))
             (scan_up lt a pivot first + 1) (scan_down lt a pivot (last' - 1)) pivot)"
  by pat_completeness auto
termination
proof (relation "measure (\<lambda>(lt, a, first, last', pivot). last' - first)")
  show "wf (measure (\<lambda>(lt, a, first, last', pivot). last' - first))"
    by simp
next
  fix lt :: "'a \<Rightarrow> 'a \<Rightarrow> bool" and a :: "'a list" and first last' pivot :: nat
  assume "\<not> \<not> scan_up lt a pivot first < scan_down lt a pivot (last' - 1)"
  then have lt: "scan_up lt a pivot first < scan_down lt a pivot (last' - 1)" by simp
  have up: "i \<le> scan_up lt a pivot i" for i
    by (induction lt a pivot i rule: scan_up.induct)
       (subst scan_up.simps, auto dest: Suc_leD)
  have down: "scan_down lt a pivot j \<le> j" for j
    by (induction lt a pivot j rule: scan_down.induct)
       (subst scan_down.simps, auto)
  from lt up [of first] down [of "last' - 1"]
  show "((lt, iter_swap a (scan_up lt a pivot first) (scan_down lt a pivot (last' - 1)),
          scan_up lt a pivot first + 1, scan_down lt a pivot (last' - 1), pivot),
         (lt, a, first, last', pivot)) \<in> measure (\<lambda>(lt, a, first, last', pivot). last' - first)"
    by simp
qed

declare unguarded_partition.simps [simp del]

text \<open>\<^verbatim>\<open>std::__unguarded_partition_pivot\<close>.\<close>

definition unguarded_partition_pivot ::
  "('a \<Rightarrow> 'a \<Rightarrow> bool) \<Rightarrow> 'a list \<Rightarrow> nat \<Rightarrow> nat \<Rightarrow> 'a list \<times> nat" where
  "unguarded_partition_pivot lt a first last' =
     unguarded_partition lt
       (move_median_to_first lt a first (first + 1) (first + (last' - first) div 2) (last' - 1))
       (first + 1) last' first"

text \<open>
  The heap sort of the fallback: \<^verbatim>\<open>std::__push_heap\<close>, \<^verbatim>\<open>std::__adjust_heap\<close>
  (its loop, in which \<^verbatim>\<open>__holeIndex\<close> equals \<^verbatim>\<open>__secondChild\<close> at the loop
  head, then the step for a last parent with one child), \<^verbatim>\<open>std::__make_heap\<close>,
  \<^verbatim>\<open>std::__pop_heap\<close>, \<^verbatim>\<open>std::__heap_select\<close>, \<^verbatim>\<open>std::__sort_heap\<close> and
  \<^verbatim>\<open>std::__partial_sort\<close>. Indices into the heap are relative to \<open>first\<close>.
\<close>

function push_heap ::
  "('a \<Rightarrow> 'a \<Rightarrow> bool) \<Rightarrow> 'a list \<Rightarrow> nat \<Rightarrow> nat \<Rightarrow> nat \<Rightarrow> 'a \<Rightarrow> 'a list" where
  "push_heap lt a first holeIndex topIndex v =
     (if holeIndex > topIndex \<and> lt (a ! (first + (holeIndex - 1) div 2)) v
      then push_heap lt (a[first + holeIndex := a ! (first + (holeIndex - 1) div 2)])
             first ((holeIndex - 1) div 2) topIndex v
      else a[first + holeIndex := v])"
  by pat_completeness auto
termination
  by (relation "measure (\<lambda>(lt, a, first, holeIndex, topIndex, v). holeIndex)") auto

declare push_heap.simps [simp del]

function adjust_heap_loop ::
  "('a \<Rightarrow> 'a \<Rightarrow> bool) \<Rightarrow> 'a list \<Rightarrow> nat \<Rightarrow> nat \<Rightarrow> nat \<Rightarrow> 'a list \<times> nat" where
  "adjust_heap_loop lt a first len secondChild =
     (if secondChild < (len - 1) div 2 then
        (if lt (a ! (first + 2 * (secondChild + 1))) (a ! (first + (2 * (secondChild + 1) - 1)))
         then adjust_heap_loop lt
                (a[first + secondChild := a ! (first + (2 * (secondChild + 1) - 1))])
                first len (2 * (secondChild + 1) - 1)
         else adjust_heap_loop lt
                (a[first + secondChild := a ! (first + 2 * (secondChild + 1))])
                first len (2 * (secondChild + 1)))
      else (a, secondChild))"
  by pat_completeness auto
termination
  by (relation "measure (\<lambda>(lt, a, first, len, secondChild). len - secondChild)") auto

declare adjust_heap_loop.simps [simp del]

definition adjust_heap ::
  "('a \<Rightarrow> 'a \<Rightarrow> bool) \<Rightarrow> 'a list \<Rightarrow> nat \<Rightarrow> nat \<Rightarrow> nat \<Rightarrow> 'a \<Rightarrow> 'a list" where
  "adjust_heap lt a first holeIndex len v =
     (case adjust_heap_loop lt a first len holeIndex of
        (a1, secondChild) \<Rightarrow>
          if len mod 2 = 0 \<and> int secondChild = (int len - 2) div 2
          then push_heap lt (a1[first + secondChild := a1 ! (first + (2 * (secondChild + 1) - 1))])
                 first (2 * (secondChild + 1) - 1) holeIndex v
          else push_heap lt a1 first secondChild holeIndex v)"

fun make_heap_loop :: "('a \<Rightarrow> 'a \<Rightarrow> bool) \<Rightarrow> 'a list \<Rightarrow> nat \<Rightarrow> nat \<Rightarrow> nat \<Rightarrow> 'a list" where
  "make_heap_loop lt a first len 0 = adjust_heap lt a first 0 len (a ! first)"
| "make_heap_loop lt a first len (Suc parent) =
     make_heap_loop lt (adjust_heap lt a first (Suc parent) len (a ! (first + Suc parent)))
       first len parent"

definition make_heap :: "('a \<Rightarrow> 'a \<Rightarrow> bool) \<Rightarrow> 'a list \<Rightarrow> nat \<Rightarrow> nat \<Rightarrow> 'a list" where
  "make_heap lt a first last' =
     (if last' - first < 2 then a
      else make_heap_loop lt a first (last' - first) ((last' - first - 2) div 2))"

definition pop_heap :: "('a \<Rightarrow> 'a \<Rightarrow> bool) \<Rightarrow> 'a list \<Rightarrow> nat \<Rightarrow> nat \<Rightarrow> nat \<Rightarrow> 'a list" where
  "pop_heap lt a first last' result =
     adjust_heap lt (a[result := a ! first]) first 0 (last' - first) (a ! result)"

function heap_select_loop ::
  "('a \<Rightarrow> 'a \<Rightarrow> bool) \<Rightarrow> 'a list \<Rightarrow> nat \<Rightarrow> nat \<Rightarrow> nat \<Rightarrow> nat \<Rightarrow> 'a list" where
  "heap_select_loop lt a first middle last' i =
     (if i < last' then
        heap_select_loop lt
          (if lt (a ! i) (a ! first) then pop_heap lt a first middle i else a)
          first middle last' (i + 1)
      else a)"
  by pat_completeness auto
termination
  by (relation "measure (\<lambda>(lt, a, first, middle, last', i). last' - i)") auto

declare heap_select_loop.simps [simp del]

definition heap_select :: "('a \<Rightarrow> 'a \<Rightarrow> bool) \<Rightarrow> 'a list \<Rightarrow> nat \<Rightarrow> nat \<Rightarrow> nat \<Rightarrow> 'a list" where
  "heap_select lt a first middle last' =
     heap_select_loop lt (make_heap lt a first middle) first middle last' middle"

function sort_heap :: "('a \<Rightarrow> 'a \<Rightarrow> bool) \<Rightarrow> 'a list \<Rightarrow> nat \<Rightarrow> nat \<Rightarrow> 'a list" where
  "sort_heap lt a first last' =
     (if last' - first > 1 then sort_heap lt (pop_heap lt a first (last' - 1) (last' - 1)) first (last' - 1)
      else a)"
  by pat_completeness auto
termination
  by (relation "measure (\<lambda>(lt, a, first, last'). last' - first)") auto

declare sort_heap.simps [simp del]

definition partial_sort :: "('a \<Rightarrow> 'a \<Rightarrow> bool) \<Rightarrow> 'a list \<Rightarrow> nat \<Rightarrow> nat \<Rightarrow> nat \<Rightarrow> 'a list" where
  "partial_sort lt a first middle last' = sort_heap lt (heap_select lt a first middle last') first middle"

text \<open>
  \<^verbatim>\<open>std::__introsort_loop\<close>: while the range has more than 16 elements, partition
  it, sort the part from the cut on by a recursive call and go on with the part before the
  cut.
\<close>

function introsort_loop ::
  "('a \<Rightarrow> 'a \<Rightarrow> bool) \<Rightarrow> 'a list \<Rightarrow> nat \<Rightarrow> nat \<Rightarrow> nat \<Rightarrow> 'a list" where
  "introsort_loop lt a first last' depth_limit =
     (if last' - first > 16 then
        (if depth_limit = 0 then partial_sort lt a first last' last'
         else
           introsort_loop lt
             (introsort_loop lt (fst (unguarded_partition_pivot lt a first last'))
                (snd (unguarded_partition_pivot lt a first last')) last' (depth_limit - 1))
             first (snd (unguarded_partition_pivot lt a first last')) (depth_limit - 1))
      else a)"
  by pat_completeness auto
termination
  by (relation "measure (\<lambda>(lt, a, first, last', depth_limit). depth_limit)") auto

declare introsort_loop.simps [simp del]

text \<open>
  \<^verbatim>\<open>std::__unguarded_linear_insert\<close> of the element \<open>v\<close> taken from index
  \<open>last'\<close>; the model stops at index 0, where the library would read out of range.
\<close>

function unguarded_linear_insert ::
  "('a \<Rightarrow> 'a \<Rightarrow> bool) \<Rightarrow> 'a list \<Rightarrow> nat \<Rightarrow> 'a \<Rightarrow> 'a list" where
  "unguarded_linear_insert lt a last' v =
     (if 0 < last' \<and> lt v (a ! (last' - 1))
      then unguarded_linear_insert lt (a[last' := a ! (last' - 1)]) (last' - 1) v
      else a[last' := v])"
  by pat_completeness auto
termination
  by (relation "measure (\<lambda>(lt, a, last', v). last')") auto

declare unguarded_linear_insert.simps [simp del]

text \<open>
  \<^verbatim>\<open>std::__insertion_sort\<close>: an element ordered before the first one is moved to
  the front (\<^verbatim>\<open>std::move_backward\<close> of the elements in between), any other is
  inserted by \<^verbatim>\<open>std::__unguarded_linear_insert\<close>.
\<close>

function insertion_sort_loop ::
  "('a \<Rightarrow> 'a \<Rightarrow> bool) \<Rightarrow> 'a list \<Rightarrow> nat \<Rightarrow> nat \<Rightarrow> nat \<Rightarrow> 'a list" where
  "insertion_sort_loop lt a first last' i =
     (if i < last' then
        insertion_sort_loop lt
          (if lt (a ! i) (a ! first)
           then take first a @ a ! i # take (i - first) (drop first a) @ drop (i + 1) a
           else unguarded_linear_insert lt a i (a ! i))
          first last' (i + 1)
      else a)"
  by pat_completeness auto
termination
  by (relation "measure (\<lambda>(lt, a, first, last', i). last' - i)") auto

declare insertion_sort_loop.simps [simp del]

definition insertion_sort :: "('a \<Rightarrow> 'a \<Rightarrow> bool) \<Rightarrow> 'a list \<Rightarrow> nat \<Rightarrow> nat \<Rightarrow> 'a list" where
  "insertion_sort lt a first last' =
     (if first = last' then a else insertion_sort_loop lt a first last' (first + 1))"

text \<open>
  \<^verbatim>\<open>std::__unguarded_insertion_sort\<close> and \<^verbatim>\<open>std::__final_insertion_sort\<close>.
\<close>

function unguarded_insertion_sort ::
  "('a \<Rightarrow> 'a \<Rightarrow> bool) \<Rightarrow> 'a list \<Rightarrow> nat \<Rightarrow> nat \<Rightarrow> 'a list" where
  "unguarded_insertion_sort lt a i last' =
     (if i < last' then unguarded_insertion_sort lt (unguarded_linear_insert lt a i (a ! i)) (i + 1) last'
      else a)"
  by pat_completeness auto
termination
  by (relation "measure (\<lambda>(lt, a, i, last'). last' - i)") auto

declare unguarded_insertion_sort.simps [simp del]

definition final_insertion_sort :: "('a \<Rightarrow> 'a \<Rightarrow> bool) \<Rightarrow> 'a list \<Rightarrow> nat \<Rightarrow> nat \<Rightarrow> 'a list" where
  "final_insertion_sort lt a first last' =
     (if last' - first > 16
      then unguarded_insertion_sort lt (insertion_sort lt a first (first + 16)) (first + 16) last'
      else insertion_sort lt a first last')"

text \<open>\<^verbatim>\<open>std::sort\<close> (\<^verbatim>\<open>std::__sort\<close>) of the whole array.\<close>

definition std_sort :: "('a \<Rightarrow> 'a \<Rightarrow> bool) \<Rightarrow> 'a list \<Rightarrow> 'a list" where
  "std_sort lt a =
     (if a \<noteq> [] then
        final_insertion_sort lt
          (introsort_loop lt a 0 (length a) (lg (length a) * 2)) 0 (length a)
      else a)"

subsection \<open>The visibility collector\<close>

definition itemFarDistance :: "Geometry \<Rightarrow> Vector3 \<Rightarrow> real" where
  "itemFarDistance geom cameraSpacePosition = - vz cameraSpacePosition + boundingSphereRadius geom"

definition itemNearDistance :: "Geometry \<Rightarrow> Quaternion \<Rightarrow> Vector3 \<Rightarrow> real \<Rightarrow> real" where
  "itemNearDistance geom orient cameraRelativePos nearAdjust =
     (case clippingPolicy geom of
        PreserveDepthPrecision \<Rightarrow>
          max (nearPlaneDistance geom (conjugateRotate orient (vneg cameraRelativePos)))
              (boundingSphereRadius geom * MinimumNearFarRatio * 2)
      | PreventClipping \<Rightarrow>
          max (nearPlaneDistance geom (conjugateRotate orient (vneg cameraRelativePos)))
              MinimumNearPlaneDistance
      | SplitToPreventClipping \<Rightarrow>
          max (nearPlaneDistance geom (conjugateRotate orient (vneg cameraRelativePos)))
              MinimumNearPlaneDistance)
     * nearAdjust"

definition newVisibleItem ::
  "Entity \<Rightarrow> Geometry \<Rightarrow> Vector3 \<Rightarrow> Vector3 \<Rightarrow> Vector3 \<Rightarrow> Quaternion \<Rightarrow> real \<Rightarrow> Frustum \<Rightarrow> VisibleItem" where
  "newVisibleItem ent geom pos cameraRelativePos cameraSpacePosition orient nearAdjust viewFrustum =
     \<lparr> entity = ent, VisibleItem.geometry = geom, VisibleItem.position = pos,
       VisibleItem.cameraRelativePosition = cameraRelativePos,
       VisibleItem.orientation = orient,
       boundingRadius = boundingSphereRadius geom,
       VisibleItem.nearDistance = itemNearDistance geom orient cameraRelativePos nearAdjust,
       VisibleItem.farDistance = itemFarDistance geom cameraSpacePosition,
       outsideFrustum = (\<not> intersects viewFrustum cameraSpacePosition (boundingSphereRadius geom)) \<rparr>"

definition addVisibleItem ::
  "Entity \<Rightarrow> Geometry \<Rightarrow> Vector3 \<Rightarrow> Vector3 \<Rightarrow> Vector3 \<Rightarrow> Quaternion \<Rightarrow> real \<Rightarrow> UniverseRenderer
    \<Rightarrow> UniverseRenderer" where
  "addVisibleItem ent geom pos cameraRelativePos cameraSpacePosition orient nearAdjust r =
     (if itemFarDistance geom cameraSpacePosition > 0 \<and>
         itemNearDistance geom orient cameraRelativePos nearAdjust
           < itemFarDistance geom cameraSpacePosition
      then
        (if clippingPolicy geom = SplitToPreventClipping
         then r\<lparr> m_splittableItems := m_splittableItems r @
                  [newVisibleItem ent geom pos cameraRelativePos cameraSpacePosition orient
                     nearAdjust (m_viewFrustum r)] \<rparr>
         else r\<lparr> m_visibleItems := m_visibleItems r @
                  [newVisibleItem ent geom pos cameraRelativePos cameraSpacePosition orient
                     nearAdjust (m_viewFrustum r)] \<rparr>)
      else r)"

text \<open>The flag \<^verbatim>\<open>sizeCull\<close> of the entity loop in \<^verbatim>\<open>renderView\<close>.\<close>

definition sizeCull :: "Geometry option \<Rightarrow> real \<Rightarrow> real \<Rightarrow> bool" where
  "sizeCull geom distance pxSize =
     (case geom of
        Some g \<Rightarrow> projectedSize (boundingSphereRadius g) distance pxSize < 0.5
      | None \<Rightarrow> True)"

text \<open>One visualizer of an entity (the body of the inner loop).\<close>

definition visitVisualizer ::
  "Entity \<Rightarrow> Vector3 \<Rightarrow> Vector3 \<Rightarrow> Vector3 \<Rightarrow> real \<Rightarrow> UniverseRenderer \<Rightarrow> Visualizer \<Rightarrow> UniverseRenderer" where
  "visitVisualizer ent pos cameraRelativePos cameraSpacePosition nearAdjust r visualizer =
     (if Visualizer.isVisible visualizer then
        (case (depthAdjustment visualizer, Entity.geometry ent) of
           (AdjustToFront, Some g) \<Rightarrow>
             addVisibleItem ent (Visualizer.geometry visualizer) pos
               (vscale cameraRelativePos
                  ((- vz cameraSpacePosition - boundingSphereRadius g) / - vz cameraSpacePosition))
               (vscale cameraSpacePosition
                  ((- vz cameraSpacePosition - boundingSphereRadius g) / - vz cameraSpacePosition))
               (Visualizer.orientation visualizer (m_currentTime r)) nearAdjust r
         | _ \<Rightarrow>
             addVisibleItem ent (Visualizer.geometry visualizer) pos
               cameraRelativePos cameraSpacePosition
               (Visualizer.orientation visualizer (m_currentTime r)) nearAdjust r)
      else r)"

text \<open>One entity (the body of the outer loop).\<close>

definition visitEntity ::
  "Vector3 \<Rightarrow> Quaternion \<Rightarrow> real \<Rightarrow> real \<Rightarrow> UniverseRenderer \<Rightarrow> Entity \<Rightarrow> UniverseRenderer" where
  "visitEntity cameraPosition cameraOrient pxSize nearAdjust r ent =
     (if Entity.isVisible ent (m_currentTime r) then
        foldl
          (visitVisualizer ent (Entity.position ent (m_currentTime r))
             (vsub (Entity.position ent (m_currentTime r)) cameraPosition)
             (conjugateRotate cameraOrient (vsub (Entity.position ent (m_currentTime r)) cameraPosition))
             nearAdjust)
          (case Entity.geometry ent of
             Some g \<Rightarrow>
               if \<not> sizeCull (Entity.geometry ent)
                      (vnorm (vsub (Entity.position ent (m_currentTime r)) cameraPosition)) pxSize
               then addVisibleItem ent g (Entity.position ent (m_currentTime r))
                      (vsub (Entity.position ent (m_currentTime r)) cameraPosition)
                      (conjugateRotate cameraOrient
                         (vsub (Entity.position ent (m_currentTime r)) cameraPosition))
                      (Entity.orientation ent (m_currentTime r)) nearAdjust r
               else r
           | None \<Rightarrow> r)
          (if visualizers ent \<noteq> [] \<and> m_visualizersEnabled r then visualizers ent else [])
      else r)"

subsection \<open>renderView\<close>

text \<open>
  The comparison of the depth sort.
\<close>

definition visibleItemPredicate :: "VisibleItem \<Rightarrow> VisibleItem \<Rightarrow> bool" where
  "visibleItemPredicate item0 item1 = (VisibleItem.farDistance item0 < VisibleItem.farDistance item1)"

text \<open>
  The loop that adds front spans while the foreground span (the last of the list) begins
  behind the projection's near plane. Nothing in the code bounds its iterations, so not
  returning is the value \<open>None\<close>. It is entered with a non-empty list only.
\<close>

partial_function (option) addFrontSpans :: "real \<Rightarrow> DepthBufferSpan list \<Rightarrow> DepthBufferSpan list option" where
  "addFrontSpans projectionNear merged =
     (if DepthBufferSpan.nearDistance (last merged) > projectionNear then
        addFrontSpans projectionNear
          (merged @
           [\<lparr> backItemIndex = 0, itemCount = 0,
               DepthBufferSpan.farDistance = DepthBufferSpan.nearDistance (last merged),
               DepthBufferSpan.nearDistance =
                 max projectionNear (DepthBufferSpan.nearDistance (last merged) / MaxFarNearRatio) \<rparr>])
      else Some merged)"

text \<open>
  The first step on the back side: with no span at all, one span up to the projection's
  far distance is pushed; otherwise a span up to \<^verbatim>\<open>furthestDistance\<close> is inserted at
  the back when that lies beyond the farthest merged span.
\<close>

definition addBackSpan ::
  "PlanarProjection \<Rightarrow> real \<Rightarrow> DepthBufferSpan list \<Rightarrow> DepthBufferSpan list
    \<Rightarrow> Fault + DepthBufferSpan list" where
  "addBackSpan projection furthestDistance spans merged =
     (if spans = [] then
        Inr (merged @
          [\<lparr> backItemIndex = 0, itemCount = 0,
              DepthBufferSpan.farDistance = PlanarProjection.farDistance projection,
              DepthBufferSpan.nearDistance =
                max (PlanarProjection.nearDistance projection)
                    (PlanarProjection.farDistance projection / MaxFarNearRatio) \<rparr>])
      else
        (case merged of
           [] \<Rightarrow> Inl OutOfRange
         | front # _ \<Rightarrow>
             if furthestDistance > DepthBufferSpan.farDistance front then
               Inr (\<lparr> backItemIndex = 0, itemCount = 0,
                       DepthBufferSpan.farDistance = furthestDistance,
                       DepthBufferSpan.nearDistance = DepthBufferSpan.farDistance front \<rparr>
                    # merged)
             else Inr merged))"

text \<open>The span inserted at the very back after the front spans.\<close>

definition outerBackSpan :: "DepthBufferSpan list \<Rightarrow> DepthBufferSpan" where
  "outerBackSpan merged =
     \<lparr> backItemIndex = 0, itemCount = 0,
       DepthBufferSpan.farDistance = DepthBufferSpan.farDistance (hd merged) * MaxFarNearRatio,
       DepthBufferSpan.nearDistance = DepthBufferSpan.farDistance (hd merged) \<rparr>"

text \<open>
  The block of \<^verbatim>\<open>renderView\<close> that adds the extra spans, from the splittable items
  (sorted), the raw spans and the merged spans to the new merged spans.
  \<^verbatim>\<open>m_splittableItems.front()\<close> is the first splittable item. The list handed to
  \<open>outerBackSpan\<close> extends one that \<open>addBackSpan\<close> returned, which is never empty.
\<close>

definition extendDepthSpans ::
  "PlanarProjection \<Rightarrow> VisibleItem list \<Rightarrow> DepthBufferSpan list \<Rightarrow> DepthBufferSpan list
    \<Rightarrow> (Fault + DepthBufferSpan list) option" where
  "extendDepthSpans projection splittable spans merged =
     (case splittable of
        [] \<Rightarrow> Some (Inr merged)
      | firstItem # _ \<Rightarrow>
          (case addBackSpan projection
                  (min (VisibleItem.farDistance firstItem) (PlanarProjection.farDistance projection))
                  spans merged of
             Inl fault \<Rightarrow> Some (Inl fault)
           | Inr withBack \<Rightarrow>
               (case addFrontSpans (PlanarProjection.nearDistance projection) withBack of
                  None \<Rightarrow> None
                | Some withFront \<Rightarrow> Some (Inr (outerBackSpan withFront # withFront)))))"

text \<open>
  What \<^verbatim>\<open>renderView\<close> stores in the render context before it looks at the scene:
  the camera orientation and the pixel size.
\<close>

definition viewContext :: "Quaternion \<Rightarrow> PlanarProjection \<Rightarrow> Viewport \<Rightarrow> RenderContext \<Rightarrow> RenderContext" where
  "viewContext cameraOrient projection viewport rc0 =
     rc0\<lparr> cameraOrientation := cameraOrient,
          pixelSize := 2 * tan (fovY projection / 2) / real_of_int (height viewport) \<rparr>"

definition nearPlaneFovAdjustment :: "PlanarProjection \<Rightarrow> Viewport \<Rightarrow> real" where
  "nearPlaneFovAdjustment projection viewport =
     cos (fovY projection / 2) / sqrt (1 + aspectRatio viewport * aspectRatio viewport)"

text \<open>
  The first half of \<^verbatim>\<open>renderView\<close>, up to the two depth sorts: the view frustum is
  stored, the item lists are cleared, the visible lights are selected, every entity is
  visited and the two item lists are sorted. \<open>rc\<close> is the render context as
  \<open>viewContext\<close> left it. \<open>sortItems\<close> and \<open>sortLights\<close> are \<^verbatim>\<open>std::sort\<close> with
  \<open>visibleItemPredicate\<close> and \<open>lightCastsShadowsPredicate\<close>.
\<close>

definition collectVisible ::
  "(VisibleItem list \<Rightarrow> VisibleItem list) \<Rightarrow>
   (VisibleLightSourceItem list \<Rightarrow> VisibleLightSourceItem list) \<Rightarrow>
   Vector3 \<Rightarrow> Quaternion \<Rightarrow> PlanarProjection \<Rightarrow> Viewport \<Rightarrow> Universe \<Rightarrow> RenderContext
    \<Rightarrow> UniverseRenderer \<Rightarrow> UniverseRenderer" where
  "collectVisible sortItems sortLights cameraPosition cameraOrient projection viewport universe rc r =
     (let r1 = r\<lparr> m_renderContext := Some rc, m_viewFrustum := frustum projection,
                     m_visibleItems := [], m_splittableItems := [] \<rparr>;
          r2 = buildVisibleLightSourceList sortLights cameraPosition rc r1;
          r3 = foldl (visitEntity cameraPosition cameraOrient (pixelSize rc)
                        (nearPlaneFovAdjustment projection viewport))
                 r2 (entities universe)
      in r3\<lparr> m_visibleItems := sortItems (m_visibleItems r3),
              m_splittableItems := sortItems (m_splittableItems r3) \<rparr>)"

text \<open>
  \<^verbatim>\<open>renderView\<close>, as far as it computes the visible items, the visible lights and
  the spans. The result is \<open>None\<close> when the front-span loop does not return.
\<close>

definition renderView ::
  "(VisibleItem list \<Rightarrow> VisibleItem list) \<Rightarrow>
   (VisibleLightSourceItem list \<Rightarrow> VisibleLightSourceItem list) \<Rightarrow>
   Vector3 \<Rightarrow> Quaternion \<Rightarrow> PlanarProjection \<Rightarrow> Viewport \<Rightarrow> UniverseRenderer
    \<Rightarrow> (Fault + RenderStatus \<times> UniverseRenderer) option" where
  "renderView sortItems sortLights cameraPosition cameraOrient projection viewport r =
     (case m_universe r of
        None \<Rightarrow> Some (Inr (RenderNoViewSet, r))
      | Some universe \<Rightarrow>
          (case m_renderContext r of
             None \<Rightarrow> Some (Inl NullPointer)
           | Some rc0 \<Rightarrow>
               (let r4 = collectVisible sortItems sortLights cameraPosition cameraOrient projection
                           viewport universe (viewContext cameraOrient projection viewport rc0) r;
                    r5 = r4\<lparr> m_depthBufferSpans := splitDepthBuffer (m_visibleItems r4) \<rparr>;
                    r6 = r5\<lparr> m_mergedDepthBufferSpans := coalesceDepthBuffer (m_depthBufferSpans r5) \<rparr>
                in case extendDepthSpans projection (m_splittableItems r6) (m_depthBufferSpans r6)
                          (m_mergedDepthBufferSpans r6) of
                     None \<Rightarrow> None
                   | Some (Inl fault) \<Rightarrow> Some (Inl fault)
                   | Some (Inr merged) \<Rightarrow>
                       Some (Inr (RenderOk, r6\<lparr> m_mergedDepthBufferSpans := merged \<rparr>)))))"
subsection \<open>Properties of span lists\<close>

fun contiguous :: "DepthBufferSpan list \<Rightarrow> bool" where
  "contiguous [] = True"
| "contiguous [s] = (DepthBufferSpan.nearDistance s < DepthBufferSpan.farDistance s)"
| "contiguous (s # t # r) =
     (DepthBufferSpan.nearDistance s < DepthBufferSpan.farDistance s \<and>
      DepthBufferSpan.nearDistance s = DepthBufferSpan.farDistance t \<and> contiguous (t # r))"

definition globalNear :: "VisibleItem list \<Rightarrow> real" where
  "globalNear items = Min (set (map VisibleItem.nearDistance items))"

definition globalFar :: "VisibleItem list \<Rightarrow> real" where
  "globalFar items = Max (set (map VisibleItem.farDistance items))"


definition spanCoverage :: "DepthBufferSpan list \<Rightarrow> VisibleItem list \<Rightarrow> bool" where
  "spanCoverage spans items =
     (sum_list (map itemCount spans) = length items \<and>
      spans \<noteq> [] \<and> contiguous spans \<and>
      DepthBufferSpan.farDistance (hd spans) = globalFar items \<and>
      DepthBufferSpan.nearDistance (last spans) = globalNear items \<and>
      sorted_wrt (\<lambda>a b. DepthBufferSpan.farDistance b \<le> DepthBufferSpan.nearDistance a) spans)"

definition identityRotation :: Quaternion where
  "identityRotation = \<lparr> rotate = (\<lambda>v. v), conjugateRotate = (\<lambda>v. v) \<rparr>"

definition exampleGeometry :: "real \<Rightarrow> ClippingPolicy \<Rightarrow> real \<Rightarrow> Geometry" where
  "exampleGeometry r p n =
     \<lparr> boundingSphereRadius = r, clippingPolicy = p, nearPlaneDistance = (\<lambda>d. n) \<rparr>"

definition exampleEntity :: "Vector3 \<Rightarrow> Geometry option \<Rightarrow> LightSource option \<Rightarrow> Entity" where
  "exampleEntity p g l =
     \<lparr> Entity.isVisible = (\<lambda>t. True), Entity.position = (\<lambda>t. p),
       Entity.orientation = (\<lambda>t. identityRotation), Entity.geometry = g,
       Entity.lightSource = l, visualizers = [] \<rparr>"

definition exampleItem :: "real \<Rightarrow> real \<Rightarrow> VisibleItem" where
  "exampleItem n f =
     \<lparr> entity = exampleEntity (0, 0, 0) None None,
       VisibleItem.geometry = exampleGeometry 1 PreserveDepthPrecision n,
       VisibleItem.position = (0, 0, 0), VisibleItem.cameraRelativePosition = (0, 0, 0),
       VisibleItem.orientation = identityRotation, boundingRadius = 1,
       VisibleItem.nearDistance = n, VisibleItem.farDistance = f, outsideFrustum = False \<rparr>"

definition scenarioB :: "VisibleItem list" where
  "scenarioB = [exampleItem 0.005 10, exampleItem 99998 100000]"

definition overlapping :: "VisibleItem list" where
  "overlapping = [exampleItem 1 10, exampleItem 5 20, exampleItem 100 200]"


text \<open>The lower bound that the clipping policy puts on an item's near distance.\<close>

definition nearClamp :: "Geometry \<Rightarrow> real" where
  "nearClamp geom =
     (if clippingPolicy geom = PreserveDepthPrecision
      then boundingSphereRadius geom * MinimumNearFarRatio * 2
      else MinimumNearPlaneDistance)"


text \<open>The first shadow map exists, is not null and is valid.\<close>

definition shadowMapsUsable :: "UniverseRenderer \<Rightarrow> bool" where
  "shadowMapsUsable r =
     (case m_shadowMaps r of
        [] \<Rightarrow> False
      | shadowMap # _ \<Rightarrow> (case shadowMap of None \<Rightarrow> False | Some fb \<Rightarrow> isValid fb))"


text \<open>
  Stable sorts: of the lights by the light comparison, and of the visible items by far
  distance. Both meet the contract of \<^verbatim>\<open>std::sort\<close>.
\<close>

definition stableLightSort :: "VisibleLightSourceItem list \<Rightarrow> VisibleLightSourceItem list" where
  "stableLightSort lights = sort_key (\<lambda>l. - shadowFlag l) lights"

definition stableItemSort :: "VisibleItem list \<Rightarrow> VisibleItem list" where
  "stableItemSort items = sort_key VisibleItem.farDistance items"



text \<open>
  A span ends where the next one begins; and the shape of a span that the front-span loop
  adds for a projection with the given near distance.
\<close>

definition abuts :: "DepthBufferSpan \<Rightarrow> DepthBufferSpan \<Rightarrow> bool" where
  "abuts current next = (DepthBufferSpan.nearDistance current = DepthBufferSpan.farDistance next)"

definition frontSpan :: "real \<Rightarrow> DepthBufferSpan \<Rightarrow> bool" where
  "frontSpan projectionNear s =
     (backItemIndex s = 0 \<and> itemCount s = 0 \<and>
      DepthBufferSpan.nearDistance s =
        max projectionNear (DepthBufferSpan.farDistance s / MaxFarNearRatio))"


text \<open>
  The spans that the block for splittable items inserts directly behind the merged spans:
  one span up to \<^verbatim>\<open>furthestDistance\<close>, the far distance of the first splittable
  item clamped to the projection's far distance, when that lies beyond the farthest merged
  span; none otherwise.
\<close>

definition backSpans :: "PlanarProjection \<Rightarrow> VisibleItem list \<Rightarrow> DepthBufferSpan list \<Rightarrow> DepthBufferSpan list" where
  "backSpans projection splittable merged =
     (if min (VisibleItem.farDistance (hd splittable)) (PlanarProjection.farDistance projection)
           > DepthBufferSpan.farDistance (hd merged)
      then [\<lparr> backItemIndex = 0, itemCount = 0,
               DepthBufferSpan.farDistance =
                 min (VisibleItem.farDistance (hd splittable)) (PlanarProjection.farDistance projection),
               DepthBufferSpan.nearDistance = DepthBufferSpan.farDistance (hd merged) \<rparr>]
      else [])"

text \<open>What \<^verbatim>\<open>addVisibleItem\<close> requires of an item before it appends it.\<close>

definition admitted :: "VisibleItem \<Rightarrow> bool" where
  "admitted item =
     (0 < VisibleItem.farDistance item \<and> VisibleItem.nearDistance item < VisibleItem.farDistance item)"


subsection \<open>Example scenes\<close>

definition exampleFrustum :: Frustum where
  "exampleFrustum = \<lparr> intersects = (\<lambda>c r. True) \<rparr>"

definition exampleContext :: RenderContext where
  "exampleContext = \<lparr> cameraOrientation = identityRotation, pixelSize = 1 \<rparr>"

definition exampleUniverse :: Universe where
  "exampleUniverse = \<lparr> entities = [] \<rparr>"

definition idleRenderer :: UniverseRenderer where
  "idleRenderer = (UniverseRenderer_new exampleFrustum)\<lparr> m_renderContext := Some exampleContext \<rparr>"


definition sceneSphere :: Geometry where
  "sceneSphere = exampleGeometry 1 PreserveDepthPrecision 0"

definition sceneTrajectory :: Geometry where
  "sceneTrajectory = exampleGeometry 50 SplitToPreventClipping 0"


definition lampA :: LightSource where
  "lampA = \<lparr> range = 1, isShadowCaster = False \<rparr>"

definition lampB :: LightSource where
  "lampB = \<lparr> range = 2, isShadowCaster = False \<rparr>"

definition lampItemA :: LightSourceItem where
  "lampItemA = \<lparr> LightSourceItem.lightSource = Some lampA, LightSourceItem.position = (0, 0, -1) \<rparr>"

definition lampItemB :: LightSourceItem where
  "lampItemB = \<lparr> LightSourceItem.lightSource = Some lampB, LightSourceItem.position = (0, -1, 0) \<rparr>"





definition lampScene :: UniverseRenderer where
  "lampScene = idleRenderer\<lparr> m_lightSources := [sunItem, lampItemA, lampItemB] \<rparr>"

definition exampleProjection :: "real \<Rightarrow> real \<Rightarrow> PlanarProjection" where
  "exampleProjection n f =
     \<lparr> fovY = pi / 2, PlanarProjection.nearDistance = n, PlanarProjection.farDistance = f,
       frustum = exampleFrustum \<rparr>"


definition nearItem :: "VisibleItem list" where
  "nearItem = [exampleItem 1 10]"


definition exampleViewport :: Viewport where
  "exampleViewport = \<lparr> width = 2, height = 2 \<rparr>"

definition smallSphere :: Geometry where
  "smallSphere = exampleGeometry (1 / 2) PreserveDepthPrecision 0"

definition sceneUniverse :: Universe where
  "sceneUniverse =
     \<lparr> entities =
         [exampleEntity (0, 0, -1) (Some smallSphere) None,
          exampleEntity (0, 0, -1) None (Some lampA),
          exampleEntity (0, 0, -1) (Some sceneTrajectory) None] \<rparr>"

definition sceneOpen :: UniverseRenderer where
  "sceneOpen = snd (beginViewSet (Some sceneUniverse) 0 idleRenderer)"


definition sceneSpans :: "DepthBufferSpan list" where
  "sceneSpans =
     [\<lparr> backItemIndex = 0, itemCount = 0,
         DepthBufferSpan.farDistance = 510000, DepthBufferSpan.nearDistance = 51 \<rparr>,
      \<lparr> backItemIndex = 0, itemCount = 0,
         DepthBufferSpan.farDistance = 51, DepthBufferSpan.nearDistance = 3 / 2 \<rparr>,
      \<lparr> backItemIndex = 0, itemCount = 1,
         DepthBufferSpan.farDistance = 3 / 2, DepthBufferSpan.nearDistance = 1 / 2000 \<rparr>]"

section \<open>Partitioning and coalescing\<close>

lemma contiguous_Cons:
  "contiguous (s # r) =
     (DepthBufferSpan.nearDistance s < DepthBufferSpan.farDistance s \<and> contiguous r \<and>
      (r = [] \<or> DepthBufferSpan.nearDistance s = DepthBufferSpan.farDistance (hd r)))"
  by (cases r) auto

lemma contiguous_append:
  "contiguous (xs @ ys) =
     (contiguous xs \<and> contiguous ys \<and>
      (xs = [] \<or> ys = [] \<or>
       DepthBufferSpan.nearDistance (last xs) = DepthBufferSpan.farDistance (hd ys)))"
proof (induction xs)
  case Nil
  show ?case by simp
next
  case (Cons x xs)
  show ?case
    unfolding append_Cons contiguous_Cons [of x "xs @ ys"] contiguous_Cons [of x xs] Cons.IH
    by (cases xs) auto
qed

lemma contiguous_last_lt_hd:
  "contiguous xs \<Longrightarrow> xs \<noteq> [] \<Longrightarrow>
   DepthBufferSpan.nearDistance (last xs) < DepthBufferSpan.farDistance (hd xs)"
proof (induction xs rule: contiguous.induct)
  case (3 s t r)
  then show ?case by auto
qed auto

lemma contiguous_all_lt:
  "contiguous xs \<Longrightarrow> s \<in> set xs \<Longrightarrow> DepthBufferSpan.nearDistance s < DepthBufferSpan.farDistance s"
  by (induction xs rule: contiguous.induct) auto

lemma contiguous_far_le:
  "contiguous xs \<Longrightarrow> s \<in> set xs \<Longrightarrow> DepthBufferSpan.farDistance s \<le> DepthBufferSpan.farDistance (hd xs)"
proof (induction xs rule: contiguous.induct)
  case (3 a t r)
  then show ?case by auto
qed auto

lemma contiguous_disjoint:
  "contiguous xs \<Longrightarrow>
   sorted_wrt (\<lambda>a b. DepthBufferSpan.farDistance b \<le> DepthBufferSpan.nearDistance a) xs"
proof (induction xs rule: contiguous.induct)
  case (3 s t r)
  have "DepthBufferSpan.farDistance b \<le> DepthBufferSpan.farDistance t" if "b \<in> set (t # r)" for b
    using contiguous_far_le [of "t # r" b] 3 that by simp
  with 3 show ?case by auto
qed auto

lemma splitStep_not_Nil: "splitStep item i spans \<noteq> []"
  by (simp add: splitStep_def)

lemma splitStep_contiguous:
  assumes "contiguous spans"
    and "VisibleItem.nearDistance item < VisibleItem.farDistance item"
  shows "contiguous (splitStep item i spans)"
proof (cases "spans = []")
  case True
  with assms show ?thesis by (simp add: splitStep_def)
next
  case False
  then have sp: "spans = butlast spans @ [last spans]" by simp
  from assms(1) have c: "contiguous (butlast spans @ [last spans])" using sp by simp
  show ?thesis
  proof (cases "VisibleItem.farDistance item < DepthBufferSpan.nearDistance (last spans)")
    case True
    with False assms show ?thesis
      by (simp add: splitStep_def contiguous_append)
  next
    case nd: False
    have parts: "contiguous (butlast spans)"
      "DepthBufferSpan.nearDistance (last spans) < DepthBufferSpan.farDistance (last spans)"
      "butlast spans = [] \<or>
       DepthBufferSpan.nearDistance (last (butlast spans)) = DepthBufferSpan.farDistance (last spans)"
      using c unfolding contiguous_append by simp_all
    have "contiguous (butlast spans @
        [(last spans)\<lparr> itemCount := itemCount (last spans) + 1,
            DepthBufferSpan.nearDistance :=
              (if VisibleItem.nearDistance item < DepthBufferSpan.nearDistance (last spans)
               then VisibleItem.nearDistance item
               else DepthBufferSpan.nearDistance (last spans)) \<rparr>])"
      unfolding contiguous_append using parts assms(2) by auto
    with nd False show ?thesis
      by (simp add: splitStep_def)
  qed
qed

lemma splitStep_count:
  "sum_list (map itemCount (splitStep item i spans)) = sum_list (map itemCount spans) + 1"
proof (cases "spans = []")
  case True
  then show ?thesis by (simp add: splitStep_def)
next
  case False
  then have "sum_list (map itemCount spans) = sum_list (map itemCount (butlast spans @ [last spans]))"
    by simp
  then have "sum_list (map itemCount spans) = sum_list (map itemCount (butlast spans)) + itemCount (last spans)"
    by simp
  with False show ?thesis by (simp add: splitStep_def)
qed

lemma splitStep_hd:
  "DepthBufferSpan.farDistance (hd (splitStep item i spans)) =
     (if spans = [] then VisibleItem.farDistance item else DepthBufferSpan.farDistance (hd spans))"
proof (cases spans rule: rev_cases)
  case Nil
  then show ?thesis by (simp add: splitStep_def)
next
  case (snoc ys y)
  then show ?thesis by (cases ys) (auto simp add: splitStep_def)
qed

lemma splitStep_last:
  assumes "VisibleItem.nearDistance item < VisibleItem.farDistance item"
  shows "DepthBufferSpan.nearDistance (last (splitStep item i spans)) =
     (if spans = [] then VisibleItem.nearDistance item
      else min (VisibleItem.nearDistance item) (DepthBufferSpan.nearDistance (last spans)))"
  using assms by (auto simp add: splitStep_def min_def)

lemma Min_insert_min:
  fixes a b :: real
  assumes "finite S"
  shows "Min (insert (min a b) S) = Min (insert b (insert a S))"
proof (cases "S = {}")
  case True
  then show ?thesis by (simp add: min.commute)
next
  case False
  with assms show ?thesis
    by (simp add: min.assoc min.commute min.left_commute)
qed

lemma splitLoop_contiguous:
  "contiguous spans \<Longrightarrow> n \<le> length items \<Longrightarrow>
   (\<And>it. it \<in> set items \<Longrightarrow> VisibleItem.nearDistance it < VisibleItem.farDistance it) \<Longrightarrow>
   contiguous (splitLoop items n spans)"
proof (induction n arbitrary: spans)
  case 0
  then show ?case by simp
next
  case (Suc n)
  have "items ! n \<in> set items" using Suc.prems(2) by simp
  then have "contiguous (splitStep (items ! n) n spans)"
    using Suc.prems by (intro splitStep_contiguous) auto
  then show ?case using Suc by simp
qed

lemma splitLoop_count:
  "sum_list (map itemCount (splitLoop items n spans)) = sum_list (map itemCount spans) + n"
  by (induction n arbitrary: spans) (simp_all add: splitStep_count)

lemma splitLoop_not_Nil: "spans \<noteq> [] \<or> 0 < n \<Longrightarrow> splitLoop items n spans \<noteq> []"
  by (induction n arbitrary: spans) (simp_all add: splitStep_not_Nil)

lemma splitLoop_hd:
  "spans \<noteq> [] \<Longrightarrow>
   DepthBufferSpan.farDistance (hd (splitLoop items n spans)) = DepthBufferSpan.farDistance (hd spans)"
  by (induction n arbitrary: spans) (simp_all add: splitStep_not_Nil splitStep_hd)

lemma splitLoop_last:
  "spans \<noteq> [] \<Longrightarrow> n \<le> length items \<Longrightarrow>
   (\<And>it. it \<in> set items \<Longrightarrow> VisibleItem.nearDistance it < VisibleItem.farDistance it) \<Longrightarrow>
   DepthBufferSpan.nearDistance (last (splitLoop items n spans)) =
     Min (insert (DepthBufferSpan.nearDistance (last spans))
            (set (map VisibleItem.nearDistance (take n items))))"
proof (induction n arbitrary: spans)
  case 0
  then show ?case by simp
next
  case (Suc n)
  have mem: "items ! n \<in> set items" using Suc.prems(2) by simp
  have lt: "VisibleItem.nearDistance (items ! n) < VisibleItem.farDistance (items ! n)"
    using Suc.prems(3) [OF mem] .
  have tk: "take (Suc n) items = take n items @ [items ! n]"
    using Suc.prems(2) by (simp add: take_Suc_conv_app_nth)
  have "DepthBufferSpan.nearDistance (last (splitLoop items n (splitStep (items ! n) n spans))) =
     Min (insert (DepthBufferSpan.nearDistance (last (splitStep (items ! n) n spans)))
            (set (map VisibleItem.nearDistance (take n items))))"
    using Suc.prems by (intro Suc.IH) (auto simp add: splitStep_not_Nil)
  also have "\<dots> = Min (insert (min (VisibleItem.nearDistance (items ! n)) (DepthBufferSpan.nearDistance (last spans)))
            (set (map VisibleItem.nearDistance (take n items))))"
    using Suc.prems(1) lt by (simp add: splitStep_last)
  also have "\<dots> = Min (insert (DepthBufferSpan.nearDistance (last spans))
            (set (map VisibleItem.nearDistance (take (Suc n) items))))"
    unfolding tk
    by (simp add: Min_insert_min insert_commute)
  finally show ?case by simp
qed

lemma contiguous_nth_lt:
  "contiguous xs \<Longrightarrow> k < length xs \<Longrightarrow>
   DepthBufferSpan.nearDistance (xs ! k) < DepthBufferSpan.farDistance (xs ! k)"
  using contiguous_all_lt [of xs "xs ! k"] by simp

lemma contiguous_nth_link:
  "contiguous xs \<Longrightarrow> Suc k < length xs \<Longrightarrow>
   DepthBufferSpan.nearDistance (xs ! k) = DepthBufferSpan.farDistance (xs ! Suc k)"
proof (induction xs arbitrary: k rule: contiguous.induct)
  case (3 s t r)
  then show ?case by (cases k) auto
qed auto

lemma contiguous_nth_before:
  assumes "contiguous xs" "k < l" "l < length xs"
  shows "DepthBufferSpan.farDistance (xs ! l) \<le> DepthBufferSpan.nearDistance (xs ! k)"
  using sorted_wrt_nth_less [OF contiguous_disjoint [OF assms(1)] assms(2,3)] .

lemma contiguous_near_mono:
  assumes "contiguous xs" "k \<le> l" "l < length xs"
  shows "DepthBufferSpan.nearDistance (xs ! l) \<le> DepthBufferSpan.nearDistance (xs ! k)"
proof (cases "k = l")
  case False
  with assms have "k < l" by simp
  from contiguous_nth_before [OF assms(1) this assms(3)] contiguous_nth_lt [OF assms(1,3)]
  show ?thesis by simp
qed simp

lemma contiguous_near_lt_far:
  assumes "contiguous xs" "k \<le> l" "l < length xs"
  shows "DepthBufferSpan.nearDistance (xs ! l) < DepthBufferSpan.farDistance (xs ! k)"
proof -
  from assms have "k < length xs" by simp
  from contiguous_nth_lt [OF assms(1) this] contiguous_near_mono [OF assms]
  show ?thesis by simp
qed

lemma mergeScan_ge: "j \<le> fst (mergeScan spans farD j cnt)"
  by (induction spans farD j cnt rule: mergeScan.induct)
     (subst mergeScan.simps, auto dest: Suc_leD)

lemma mergeScan_lt:
  "j < length spans \<Longrightarrow> fst (mergeScan spans farD j cnt) < length spans"
  by (induction spans farD j cnt rule: mergeScan.induct)
     (subst mergeScan.simps, auto)

lemma mergeScan_same:
  "fst (mergeScan spans farD j cnt) = j \<Longrightarrow> snd (mergeScan spans farD j cnt) = cnt"
proof -
  assume eq: "fst (mergeScan spans farD j cnt) = j"
  show ?thesis
  proof (cases "j < length spans - 1 \<and>
      \<not> DepthBufferSpan.nearDistance (spans ! (j + 1)) / farD < PreferredNearFarRatio")
    case True
    then have "mergeScan spans farD j cnt =
        mergeScan spans farD (j + 1) (cnt + itemCount (spans ! (j + 1)))"
      by (subst mergeScan.simps) simp
    with mergeScan_ge [of "j + 1" spans farD "cnt + itemCount (spans ! (j + 1))"] eq
    show ?thesis by simp
  next
    case False
    then show ?thesis by (subst mergeScan.simps) auto
  qed
qed

lemma mergeScan_ratio:
  "fst (mergeScan spans farD j cnt) \<noteq> j \<Longrightarrow>
   \<not> DepthBufferSpan.nearDistance (spans ! fst (mergeScan spans farD j cnt)) / farD
       < PreferredNearFarRatio"
proof (induction spans farD j cnt rule: mergeScan.induct)
  case (1 spans farD j cnt)
  show ?case
  proof (cases "j < length spans - 1 \<and>
      \<not> DepthBufferSpan.nearDistance (spans ! (j + 1)) / farD < PreferredNearFarRatio")
    case True
    then have eq: "mergeScan spans farD j cnt =
        mergeScan spans farD (j + 1) (cnt + itemCount (spans ! (j + 1)))"
      by (subst mergeScan.simps) simp
    show ?thesis
    proof (cases "fst (mergeScan spans farD (j + 1) (cnt + itemCount (spans ! (j + 1)))) = j + 1")
      case same: True
      with True show ?thesis unfolding eq by simp
    next
      case False
      with "1.IH" True show ?thesis unfolding eq by simp
    qed
  next
    case False
    then have "mergeScan spans farD j cnt = (j, cnt)"
      by (subst mergeScan.simps) auto
    with "1.prems" show ?thesis by simp
  qed
qed

lemma mergeScan_stop:
  "fst (mergeScan spans farD j cnt) + 1 < length spans \<Longrightarrow>
   DepthBufferSpan.nearDistance (spans ! (fst (mergeScan spans farD j cnt) + 1)) / farD
     < PreferredNearFarRatio"
proof (induction spans farD j cnt rule: mergeScan.induct)
  case (1 spans farD j cnt)
  show ?case
  proof (cases "j < length spans - 1 \<and>
      \<not> DepthBufferSpan.nearDistance (spans ! (j + 1)) / farD < PreferredNearFarRatio")
    case True
    then have eq: "mergeScan spans farD j cnt =
        mergeScan spans farD (j + 1) (cnt + itemCount (spans ! (j + 1)))"
      by (subst mergeScan.simps) simp
    from "1.IH" True "1.prems" show ?thesis unfolding eq by simp
  next
    case False
    then have eq: "mergeScan spans farD j cnt = (j, cnt)"
      by (subst mergeScan.simps) auto
    from "1.prems" False show ?thesis unfolding eq by auto
  qed
qed

lemma mergeScan_count:
  "j < length spans \<Longrightarrow>
   snd (mergeScan spans farD j cnt) + sum_list (map itemCount (take (j + 1) spans)) =
   cnt + sum_list (map itemCount (take (fst (mergeScan spans farD j cnt) + 1) spans))"
proof (induction spans farD j cnt rule: mergeScan.induct)
  case (1 spans farD j cnt)
  show ?case
  proof (cases "j < length spans - 1 \<and>
      \<not> DepthBufferSpan.nearDistance (spans ! (j + 1)) / farD < PreferredNearFarRatio")
    case True
    then have eq: "mergeScan spans farD j cnt =
        mergeScan spans farD (j + 1) (cnt + itemCount (spans ! (j + 1)))"
      by (subst mergeScan.simps) simp
    from True have lt: "j + 1 < length spans" by linarith
    have tk: "take (j + 1 + 1) spans = take (j + 1) spans @ [spans ! (j + 1)]"
      using lt take_Suc_conv_app_nth [of "j + 1" spans] by simp
    from "1.IH" True lt show ?thesis unfolding eq tk by simp
  next
    case False
    then have eq: "mergeScan spans farD j cnt = (j, cnt)"
      by (subst mergeScan.simps) auto
    show ?thesis unfolding eq by simp
  qed
qed

lemma span_eta:
  "\<lparr> backItemIndex = backItemIndex s, itemCount = itemCount s,
     DepthBufferSpan.farDistance = DepthBufferSpan.farDistance s,
     DepthBufferSpan.nearDistance = DepthBufferSpan.nearDistance s \<rparr> = (s :: DepthBufferSpan)"
  by simp

lemma coalesceLoop_partition:
  assumes c: "contiguous spans" and ne: "spans \<noteq> []"
  shows "i \<le> length spans \<Longrightarrow> contiguous merged \<Longrightarrow> (merged = [] \<longleftrightarrow> i = 0) \<Longrightarrow>
     (merged \<noteq> [] \<Longrightarrow>
        DepthBufferSpan.nearDistance (last merged) = DepthBufferSpan.nearDistance (spans ! (i - 1)) \<and>
        DepthBufferSpan.farDistance (hd merged) = DepthBufferSpan.farDistance (hd spans)) \<Longrightarrow>
     sum_list (map itemCount merged) = sum_list (map itemCount (take i spans)) \<Longrightarrow>
     contiguous (coalesceLoop spans i merged) \<and> coalesceLoop spans i merged \<noteq> [] \<and>
     DepthBufferSpan.nearDistance (last (coalesceLoop spans i merged)) =
       DepthBufferSpan.nearDistance (last spans) \<and>
     DepthBufferSpan.farDistance (hd (coalesceLoop spans i merged)) =
       DepthBufferSpan.farDistance (hd spans) \<and>
     sum_list (map itemCount (coalesceLoop spans i merged)) = sum_list (map itemCount spans)"
  using c ne
proof (induction spans i merged rule: coalesceLoop.induct)
  case (1 spans i merged)
  note c = "1.prems"(6) and ne = "1.prems"(7)
  show ?case
  proof (cases "i < length spans")
    case False
    with "1.prems"(1) have i: "i = length spans" by simp
    then have eq: "coalesceLoop spans i merged = merged"
      by (subst coalesceLoop.simps) simp
    from i ne "1.prems"(3) have mne: "merged \<noteq> []" by simp
    from "1.prems"(4) [OF mne] i ne
    have "DepthBufferSpan.nearDistance (last merged) = DepthBufferSpan.nearDistance (last spans)"
      by (simp add: last_conv_nth)
    with "1.prems" mne i show ?thesis unfolding eq by simp
  next
    case True
    let ?f = "DepthBufferSpan.farDistance (spans ! i)"
    let ?ms = "mergeScan spans ?f i (itemCount (spans ! i))"
    let ?m = "\<lparr> backItemIndex = backItemIndex (spans ! i), itemCount = snd ?ms,
               DepthBufferSpan.farDistance = ?f,
               DepthBufferSpan.nearDistance = DepthBufferSpan.nearDistance (spans ! fst ?ms) \<rparr>"
    have eq: "coalesceLoop spans i merged = coalesceLoop spans (fst ?ms + 1) (merged @ [?m])"
      by (subst coalesceLoop.simps) (simp add: True)
    have ge: "i \<le> fst ?ms" by (rule mergeScan_ge)
    have lt: "fst ?ms < length spans" using True by (rule mergeScan_lt)
    have m_ok: "DepthBufferSpan.nearDistance ?m < DepthBufferSpan.farDistance ?m"
      using contiguous_near_lt_far [OF c ge lt] by simp
    have link: "merged \<noteq> [] \<Longrightarrow>
        DepthBufferSpan.nearDistance (last merged) = DepthBufferSpan.farDistance ?m"
    proof -
      assume mne: "merged \<noteq> []"
      with "1.prems"(3) have "0 < i" by simp
      then have "Suc (i - 1) = i" by simp
      with contiguous_nth_link [OF c, of "i - 1"] True
      have "DepthBufferSpan.nearDistance (spans ! (i - 1)) = DepthBufferSpan.farDistance (spans ! i)"
        by simp
      with "1.prems"(4) [OF mne] show ?thesis by simp
    qed
    have p2: "contiguous (merged @ [?m])"
      unfolding contiguous_append using "1.prems"(2) m_ok link by auto
    have p4: "DepthBufferSpan.nearDistance (last (merged @ [?m])) =
          DepthBufferSpan.nearDistance (spans ! (fst ?ms + 1 - 1)) \<and>
        DepthBufferSpan.farDistance (hd (merged @ [?m])) = DepthBufferSpan.farDistance (hd spans)"
    proof (cases "merged = []")
      case True
      with "1.prems"(3) have "i = 0" by simp
      with True ne show ?thesis by (simp add: hd_conv_nth)
    next
      case False
      with "1.prems"(4) show ?thesis by simp
    qed
    have tk: "take (i + 1) spans = take i spans @ [spans ! i]"
      using True take_Suc_conv_app_nth [of i spans] by simp
    have p5: "sum_list (map itemCount (merged @ [?m])) =
        sum_list (map itemCount (take (fst ?ms + 1) spans))"
      using mergeScan_count [OF True, of ?f "itemCount (spans ! i)"] "1.prems"(5)
      unfolding tk by simp
    have "contiguous (coalesceLoop spans (fst ?ms + 1) (merged @ [?m])) \<and>
      coalesceLoop spans (fst ?ms + 1) (merged @ [?m]) \<noteq> [] \<and>
      DepthBufferSpan.nearDistance (last (coalesceLoop spans (fst ?ms + 1) (merged @ [?m]))) =
        DepthBufferSpan.nearDistance (last spans) \<and>
      DepthBufferSpan.farDistance (hd (coalesceLoop spans (fst ?ms + 1) (merged @ [?m]))) =
        DepthBufferSpan.farDistance (hd spans) \<and>
      sum_list (map itemCount (coalesceLoop spans (fst ?ms + 1) (merged @ [?m]))) =
        sum_list (map itemCount spans)"
    proof (rule "1.IH" [OF True])
      show "fst ?ms + 1 \<le> length spans" using lt by simp
      show "contiguous (merged @ [?m])" by (rule p2)
      show "(merged @ [?m] = []) = (fst ?ms + 1 = 0)" by simp
      show "DepthBufferSpan.nearDistance (last (merged @ [?m])) =
          DepthBufferSpan.nearDistance (spans ! (fst ?ms + 1 - 1)) \<and>
        DepthBufferSpan.farDistance (hd (merged @ [?m])) = DepthBufferSpan.farDistance (hd spans)"
        by (rule p4)
      show "sum_list (map itemCount (merged @ [?m])) =
        sum_list (map itemCount (take (fst ?ms + 1) spans))" by (rule p5)
      show "contiguous spans" by (rule c)
      show "spans \<noteq> []" by (rule ne)
    qed
    then show ?thesis unfolding eq .
  qed
qed

lemma coalesceDepthBuffer_partition:
  assumes "contiguous spans" and "spans \<noteq> []"
  shows "contiguous (coalesceDepthBuffer spans) \<and> coalesceDepthBuffer spans \<noteq> [] \<and>
     DepthBufferSpan.nearDistance (last (coalesceDepthBuffer spans)) =
       DepthBufferSpan.nearDistance (last spans) \<and>
     DepthBufferSpan.farDistance (hd (coalesceDepthBuffer spans)) =
       DepthBufferSpan.farDistance (hd spans) \<and>
     sum_list (map itemCount (coalesceDepthBuffer spans)) = sum_list (map itemCount spans)"
  unfolding coalesceDepthBuffer_def
  using coalesceLoop_partition [OF assms, of 0 "[]"] by simp

lemma splitStep_pos:
  assumes "\<And>s. s \<in> set spans \<Longrightarrow> 0 < DepthBufferSpan.farDistance s"
    and "0 < VisibleItem.farDistance item"
  shows "s \<in> set (splitStep item i spans) \<Longrightarrow> 0 < DepthBufferSpan.farDistance s"
proof -
  assume mem: "s \<in> set (splitStep item i spans)"
  show ?thesis
  proof (cases "spans = []")
    case True
    with mem assms(2) show ?thesis by (simp add: splitStep_def)
  next
    case False
    then have l: "last spans \<in> set spans" by simp
    show ?thesis
    proof (cases "VisibleItem.farDistance item < DepthBufferSpan.nearDistance (last spans)")
      case True
      with mem False assms show ?thesis by (auto simp add: splitStep_def)
    next
      case nd: False
      with mem False have "s \<in> set (butlast spans) \<or>
          DepthBufferSpan.farDistance s = DepthBufferSpan.farDistance (last spans)"
        by (auto simp add: splitStep_def)
      with assms(1) l show ?thesis by (auto dest: in_set_butlastD)
    qed
  qed
qed

lemma splitLoop_pos:
  "(\<And>s. s \<in> set spans \<Longrightarrow> 0 < DepthBufferSpan.farDistance s) \<Longrightarrow> n \<le> length items \<Longrightarrow>
   (\<And>it. it \<in> set items \<Longrightarrow> 0 < VisibleItem.farDistance it) \<Longrightarrow>
   s \<in> set (splitLoop items n spans) \<Longrightarrow> 0 < DepthBufferSpan.farDistance s"
proof (induction n arbitrary: spans)
  case 0
  then show ?case by simp
next
  case (Suc n)
  have mem: "items ! n \<in> set items" using Suc.prems(2) by simp
  have "\<And>t. t \<in> set (splitStep (items ! n) n spans) \<Longrightarrow> 0 < DepthBufferSpan.farDistance t"
    using splitStep_pos [of spans "items ! n"] Suc.prems(1) Suc.prems(3) [OF mem] by blast
  then show ?case using Suc.IH [of "splitStep (items ! n) n spans"] Suc.prems by simp
qed

lemma coalesceLoop_ratio:
  assumes c: "contiguous spans"
    and pos: "\<And>s. s \<in> set spans \<Longrightarrow> 0 < DepthBufferSpan.farDistance s"
  shows "i \<le> length spans \<Longrightarrow>
     (\<And>m. m \<in> set merged \<Longrightarrow>
        0 < DepthBufferSpan.farDistance m \<and>
        (m \<in> set spans \<or>
         PreferredNearFarRatio \<le> DepthBufferSpan.nearDistance m / DepthBufferSpan.farDistance m)) \<Longrightarrow>
     successively (\<lambda>a b. DepthBufferSpan.nearDistance b / DepthBufferSpan.farDistance a
                      < PreferredNearFarRatio) merged \<Longrightarrow>
     (merged \<noteq> [] \<Longrightarrow> i < length spans \<Longrightarrow>
        DepthBufferSpan.nearDistance (spans ! i) / DepthBufferSpan.farDistance (last merged)
          < PreferredNearFarRatio) \<Longrightarrow>
     (\<forall>m \<in> set (coalesceLoop spans i merged).
        m \<in> set spans \<or>
        PreferredNearFarRatio \<le> DepthBufferSpan.nearDistance m / DepthBufferSpan.farDistance m) \<and>
     successively (\<lambda>a b. DepthBufferSpan.nearDistance b / DepthBufferSpan.farDistance a
                      < PreferredNearFarRatio) (coalesceLoop spans i merged)"
  using c pos
proof (induction spans i merged rule: coalesceLoop.induct)
  case (1 spans i merged)
  note c = "1.prems"(5) and pos = "1.prems"(6)
  show ?case
  proof (cases "i < length spans")
    case False
    then have eq: "coalesceLoop spans i merged = merged"
      by (subst coalesceLoop.simps) simp
    from "1.prems"(2,3) show ?thesis unfolding eq by blast
  next
    case True
    let ?f = "DepthBufferSpan.farDistance (spans ! i)"
    let ?ms = "mergeScan spans ?f i (itemCount (spans ! i))"
    let ?m = "\<lparr> backItemIndex = backItemIndex (spans ! i), itemCount = snd ?ms,
               DepthBufferSpan.farDistance = ?f,
               DepthBufferSpan.nearDistance = DepthBufferSpan.nearDistance (spans ! fst ?ms) \<rparr>"
    have eq: "coalesceLoop spans i merged = coalesceLoop spans (fst ?ms + 1) (merged @ [?m])"
      by (subst coalesceLoop.simps) (simp add: True)
    have ge: "i \<le> fst ?ms" by (rule mergeScan_ge)
    have lt: "fst ?ms < length spans" using True by (rule mergeScan_lt)
    have fpos: "0 < ?f" using pos [of "spans ! i"] True by simp
    have m_ratio: "?m \<in> set spans \<or>
        PreferredNearFarRatio \<le> DepthBufferSpan.nearDistance ?m / DepthBufferSpan.farDistance ?m"
    proof (cases "fst ?ms = i")
      case same: True
      from mergeScan_same [OF same] same have "?m = spans ! i" by simp
      with True show ?thesis by simp
    next
      case False
      from mergeScan_ratio [OF False] show ?thesis by simp
    qed
    have q2: "\<And>m. m \<in> set (merged @ [?m]) \<Longrightarrow>
        0 < DepthBufferSpan.farDistance m \<and>
        (m \<in> set spans \<or>
         PreferredNearFarRatio \<le> DepthBufferSpan.nearDistance m / DepthBufferSpan.farDistance m)"
      using "1.prems"(2) m_ratio fpos by auto
    have q3: "successively (\<lambda>a b. DepthBufferSpan.nearDistance b / DepthBufferSpan.farDistance a
                      < PreferredNearFarRatio) (merged @ [?m])"
    proof (cases "merged = []")
      case True
      then show ?thesis by simp
    next
      case False
      then have "last merged \<in> set merged" by simp
      with "1.prems"(2) have lpos: "0 < DepthBufferSpan.farDistance (last merged)" by blast
      have "DepthBufferSpan.nearDistance (spans ! fst ?ms) \<le> DepthBufferSpan.nearDistance (spans ! i)"
        by (rule contiguous_near_mono [OF c ge lt])
      then have "DepthBufferSpan.nearDistance (spans ! fst ?ms) / DepthBufferSpan.farDistance (last merged)
          \<le> DepthBufferSpan.nearDistance (spans ! i) / DepthBufferSpan.farDistance (last merged)"
        using lpos by (simp add: divide_right_mono)
      also have "\<dots> < PreferredNearFarRatio" using "1.prems"(4) [OF False True] .
      finally show ?thesis
        using "1.prems"(3) False by (simp add: successively_append_iff)
    qed
    have q4: "merged @ [?m] \<noteq> [] \<Longrightarrow> fst ?ms + 1 < length spans \<Longrightarrow>
        DepthBufferSpan.nearDistance (spans ! (fst ?ms + 1)) /
          DepthBufferSpan.farDistance (last (merged @ [?m])) < PreferredNearFarRatio"
      using mergeScan_stop [of spans ?f i "itemCount (spans ! i)"] by simp
    have "(\<forall>m \<in> set (coalesceLoop spans (fst ?ms + 1) (merged @ [?m])).
        m \<in> set spans \<or>
        PreferredNearFarRatio \<le> DepthBufferSpan.nearDistance m / DepthBufferSpan.farDistance m) \<and>
     successively (\<lambda>a b. DepthBufferSpan.nearDistance b / DepthBufferSpan.farDistance a
                      < PreferredNearFarRatio) (coalesceLoop spans (fst ?ms + 1) (merged @ [?m]))"
    proof (rule "1.IH" [OF True])
      show "fst ?ms + 1 \<le> length spans" using lt by simp
      show "\<And>m. m \<in> set (merged @ [?m]) \<Longrightarrow>
        0 < DepthBufferSpan.farDistance m \<and>
        (m \<in> set spans \<or>
         PreferredNearFarRatio \<le> DepthBufferSpan.nearDistance m / DepthBufferSpan.farDistance m)"
        by (rule q2)
      show "successively (\<lambda>a b. DepthBufferSpan.nearDistance b / DepthBufferSpan.farDistance a
                      < PreferredNearFarRatio) (merged @ [?m])" by (rule q3)
      show "merged @ [?m] \<noteq> [] \<Longrightarrow> fst ?ms + 1 < length spans \<Longrightarrow>
        DepthBufferSpan.nearDistance (spans ! (fst ?ms + 1)) /
          DepthBufferSpan.farDistance (last (merged @ [?m])) < PreferredNearFarRatio" by (rule q4)
      show "contiguous spans" by (rule c)
      show "\<And>s. s \<in> set spans \<Longrightarrow> 0 < DepthBufferSpan.farDistance s" by (rule pos)
    qed
    then show ?thesis unfolding eq .
  qed
qed

lemma sorted_Max_last:
  fixes xs :: "real list"
  shows "sorted xs \<Longrightarrow> xs \<noteq> [] \<Longrightarrow> Max (set xs) = last xs"
proof (induction xs)
  case Nil
  then show ?case by simp
next
  case (Cons x xs)
  then show ?case by (cases "xs = []") (auto simp add: max_def)
qed

text \<open>
  Claim C2. For a non-empty visible-item list sorted ascending by far distance (every
  visible item has a positive far distance and its near distance below it), the spans of
  \<^verbatim>\<open>splitDepthBuffer\<close>, and again the merged spans of
  \<^verbatim>\<open>coalesceDepthBuffer\<close>, have item counts that add up to the number of
  items, are stored back to front, and are pairwise disjoint intervals that tile the range
  from the smallest near distance to the largest far distance: each span ends where the
  next one begins.
\<close>

theorem span_coverage:
  assumes "items \<noteq> []"
    and "sorted (map VisibleItem.farDistance items)"
    and "\<forall>it \<in> set items.
      0 < VisibleItem.farDistance it \<and> VisibleItem.nearDistance it < VisibleItem.farDistance it"
  shows "spanCoverage (splitDepthBuffer items) items \<and>
         spanCoverage (coalesceDepthBuffer (splitDepthBuffer items)) items"
proof -
  let ?n = "length items"
  from assms(1) have n: "?n = Suc (?n - 1)" by simp
  let ?seed = "splitStep (items ! (?n - 1)) (?n - 1) []"
  have lt: "\<And>it. it \<in> set items \<Longrightarrow> VisibleItem.nearDistance it < VisibleItem.farDistance it"
    using assms(3) by blast
  have unf: "splitDepthBuffer items = splitLoop items (?n - 1) ?seed"
    unfolding splitDepthBuffer_def by (subst n) simp
  have seed: "?seed =
      [\<lparr> backItemIndex = ?n - 1, itemCount = 1,
          DepthBufferSpan.farDistance = VisibleItem.farDistance (last items),
          DepthBufferSpan.nearDistance = VisibleItem.nearDistance (last items) \<rparr>]"
    using assms(1) by (simp add: splitStep_def last_conv_nth)
  have cont: "contiguous (splitDepthBuffer items)"
    unfolding splitDepthBuffer_def by (rule splitLoop_contiguous) (simp_all add: lt)
  have cnt: "sum_list (map itemCount (splitDepthBuffer items)) = length items"
    unfolding splitDepthBuffer_def by (simp add: splitLoop_count)
  have ne: "splitDepthBuffer items \<noteq> []"
    unfolding splitDepthBuffer_def using assms(1) by (simp add: splitLoop_not_Nil)
  have "DepthBufferSpan.farDistance (hd (splitDepthBuffer items)) = DepthBufferSpan.farDistance (hd ?seed)"
    unfolding unf by (rule splitLoop_hd) (rule splitStep_not_Nil)
  also have "\<dots> = VisibleItem.farDistance (last items)"
    unfolding seed by simp
  also have "\<dots> = globalFar items"
    unfolding globalFar_def
    using sorted_Max_last [OF assms(2)] assms(1) by (simp add: last_map)
  finally have far: "DepthBufferSpan.farDistance (hd (splitDepthBuffer items)) = globalFar items" .
  have tk: "items = take (?n - 1) items @ [last items]"
    using assms(1) by (metis append_butlast_last_id butlast_conv_take)
  have "DepthBufferSpan.nearDistance (last (splitDepthBuffer items)) =
      Min (insert (DepthBufferSpan.nearDistance (last ?seed))
             (set (map VisibleItem.nearDistance (take (?n - 1) items))))"
    unfolding unf by (rule splitLoop_last) (simp_all add: splitStep_not_Nil lt)
  also have "\<dots> = Min (insert (VisibleItem.nearDistance (last items))
             (set (map VisibleItem.nearDistance (take (?n - 1) items))))"
    unfolding seed by simp
  also have "\<dots> = Min (set (map VisibleItem.nearDistance (take (?n - 1) items @ [last items])))"
    by simp
  also have "\<dots> = globalNear items"
    unfolding globalNear_def using tk by simp
  finally have near: "DepthBufferSpan.nearDistance (last (splitDepthBuffer items)) = globalNear items" .
  have raw: "spanCoverage (splitDepthBuffer items) items"
    unfolding spanCoverage_def using cnt ne cont far near contiguous_disjoint [OF cont] by simp
  from coalesceDepthBuffer_partition [OF cont ne]
  have "spanCoverage (coalesceDepthBuffer (splitDepthBuffer items)) items"
    unfolding spanCoverage_def using cnt far near
    by (simp add: contiguous_disjoint)
  with raw show ?thesis by simp
qed

lemma splitDepthBuffer_overlapping:
  "splitDepthBuffer overlapping =
     [\<lparr> backItemIndex = 2, itemCount = 1, DepthBufferSpan.farDistance = 200, DepthBufferSpan.nearDistance = 100 \<rparr>,
      \<lparr> backItemIndex = 1, itemCount = 0, DepthBufferSpan.farDistance = 100, DepthBufferSpan.nearDistance = 20 \<rparr>,
      \<lparr> backItemIndex = 1, itemCount = 2, DepthBufferSpan.farDistance = 20, DepthBufferSpan.nearDistance = 1 \<rparr>]"
  by (simp add: splitDepthBuffer_def overlapping_def exampleItem_def splitStep_def eval_nat_numeral)

lemma coalesce_overlapping:
  "coalesceDepthBuffer (splitDepthBuffer overlapping) =
     [\<lparr> backItemIndex = 2, itemCount = 3, DepthBufferSpan.farDistance = 200, DepthBufferSpan.nearDistance = 1 \<rparr>]"
  unfolding splitDepthBuffer_overlapping coalesceDepthBuffer_def
  by (simp add: coalesceLoop.simps mergeScan.simps PreferredNearFarRatio_def eval_nat_numeral)

theorem span_coverage_witness:
  "spanCoverage (splitDepthBuffer overlapping) overlapping \<and>
   spanCoverage (coalesceDepthBuffer (splitDepthBuffer overlapping)) overlapping \<and>
   map itemCount (splitDepthBuffer overlapping) = [1, 0, 2] \<and>
   map itemCount (coalesceDepthBuffer (splitDepthBuffer overlapping)) = [3]"
proof -
  have h1: "overlapping \<noteq> []" by (simp add: overlapping_def)
  have h2: "sorted (map VisibleItem.farDistance overlapping)"
    by (simp add: overlapping_def exampleItem_def)
  have h3: "\<forall>it \<in> set overlapping.
      0 < VisibleItem.farDistance it \<and> VisibleItem.nearDistance it < VisibleItem.farDistance it"
    by (simp add: overlapping_def exampleItem_def)
  have a: "spanCoverage (splitDepthBuffer overlapping) overlapping \<and>
     spanCoverage (coalesceDepthBuffer (splitDepthBuffer overlapping)) overlapping"
    by (rule span_coverage [OF h1 h2 h3])
  have b: "map itemCount (splitDepthBuffer overlapping) = [1, 0, 2]"
    by (simp add: splitDepthBuffer_overlapping)
  have c: "map itemCount (coalesceDepthBuffer (splitDepthBuffer overlapping)) = [3]"
    by (simp add: coalesce_overlapping)
  from a b c show ?thesis by blast
qed

lemma splitDepthBuffer_scenarioB:
  "splitDepthBuffer scenarioB =
     [\<lparr> backItemIndex = 1, itemCount = 1, DepthBufferSpan.farDistance = 100000, DepthBufferSpan.nearDistance = 99998 \<rparr>,
      \<lparr> backItemIndex = 0, itemCount = 0, DepthBufferSpan.farDistance = 99998, DepthBufferSpan.nearDistance = 10 \<rparr>,
      \<lparr> backItemIndex = 0, itemCount = 1, DepthBufferSpan.farDistance = 10, DepthBufferSpan.nearDistance = 0.005 \<rparr>]"
  by (simp add: splitDepthBuffer_def scenarioB_def exampleItem_def splitStep_def eval_nat_numeral)

lemma coalesce_scenarioB:
  "coalesceDepthBuffer (splitDepthBuffer scenarioB) =
     [\<lparr> backItemIndex = 1, itemCount = 1, DepthBufferSpan.farDistance = 100000, DepthBufferSpan.nearDistance = 99998 \<rparr>,
      \<lparr> backItemIndex = 0, itemCount = 0, DepthBufferSpan.farDistance = 99998, DepthBufferSpan.nearDistance = 10 \<rparr>,
      \<lparr> backItemIndex = 0, itemCount = 1, DepthBufferSpan.farDistance = 10, DepthBufferSpan.nearDistance = 0.005 \<rparr>]"
  unfolding splitDepthBuffer_scenarioB coalesceDepthBuffer_def
  by (simp add: coalesceLoop.simps mergeScan.simps PreferredNearFarRatio_def eval_nat_numeral)

text \<open>
  Claim C1, as amended. After the coalesce pass, a merged span is either one raw span
  unchanged or has a near/far ratio of at least \<^verbatim>\<open>PreferredNearFarRatio\<close> (above
  \<^verbatim>\<open>MinimumNearFarRatio\<close>); and for every adjacent pair of merged spans the next
  span's near distance over the current span's far distance is below
  \<^verbatim>\<open>PreferredNearFarRatio\<close>: merging stopped there because the ratio fell below the
  threshold.
\<close>

theorem coalesce_ratio:
  assumes "\<forall>it \<in> set items.
      0 < VisibleItem.farDistance it \<and> VisibleItem.nearDistance it < VisibleItem.farDistance it"
  shows "(\<forall>m \<in> set (coalesceDepthBuffer (splitDepthBuffer items)).
            m \<in> set (splitDepthBuffer items) \<or>
            PreferredNearFarRatio \<le> DepthBufferSpan.nearDistance m / DepthBufferSpan.farDistance m) \<and>
         successively
           (\<lambda>current next. DepthBufferSpan.nearDistance next / DepthBufferSpan.farDistance current
                             < PreferredNearFarRatio)
           (coalesceDepthBuffer (splitDepthBuffer items))"
proof -
  have lt: "\<And>it. it \<in> set items \<Longrightarrow> VisibleItem.nearDistance it < VisibleItem.farDistance it"
    and pos: "\<And>it. it \<in> set items \<Longrightarrow> 0 < VisibleItem.farDistance it"
    using assms by blast+
  have cont: "contiguous (splitDepthBuffer items)"
    unfolding splitDepthBuffer_def by (rule splitLoop_contiguous) (simp_all add: lt)
  have spos: "\<And>s. s \<in> set (splitDepthBuffer items) \<Longrightarrow> 0 < DepthBufferSpan.farDistance s"
    unfolding splitDepthBuffer_def
    by (rule splitLoop_pos [of "[]" "length items" items]) (simp_all add: pos)
  show ?thesis
    unfolding coalesceDepthBuffer_def
    by (rule coalesceLoop_ratio [OF cont spos]) simp_all
qed

theorem coalesce_ratio_witness:
  "(PreferredNearFarRatio \<le>
      DepthBufferSpan.nearDistance (hd (coalesceDepthBuffer (splitDepthBuffer overlapping))) /
      DepthBufferSpan.farDistance (hd (coalesceDepthBuffer (splitDepthBuffer overlapping)))) \<and>
   successively
     (\<lambda>current next. DepthBufferSpan.nearDistance next / DepthBufferSpan.farDistance current
                       < PreferredNearFarRatio)
     (coalesceDepthBuffer (splitDepthBuffer scenarioB))"
proof -
  have h1: "\<forall>it \<in> set overlapping.
      0 < VisibleItem.farDistance it \<and> VisibleItem.nearDistance it < VisibleItem.farDistance it"
    by (simp add: overlapping_def exampleItem_def)
  have h2: "\<forall>it \<in> set scenarioB.
      0 < VisibleItem.farDistance it \<and> VisibleItem.nearDistance it < VisibleItem.farDistance it"
    by (simp add: scenarioB_def exampleItem_def)
  have notin: "hd (coalesceDepthBuffer (splitDepthBuffer overlapping)) \<notin> set (splitDepthBuffer overlapping)"
    unfolding coalesce_overlapping by (simp add: splitDepthBuffer_overlapping)
  have "hd (coalesceDepthBuffer (splitDepthBuffer overlapping))
      \<in> set (coalesceDepthBuffer (splitDepthBuffer overlapping))"
    by (simp add: coalesce_overlapping)
  with coalesce_ratio [OF h1] notin coalesce_ratio [OF h2] show ?thesis by blast
qed

text \<open>
  The claim as written fails on two separated items (far distances 10 and 100000): three
  merged spans remain, the ratio across the first adjacent pair is below the preferred
  ratio, and the front span's own ratio is below the minimum ratio.
\<close>

theorem coalesce_ratio_counterexample:
  "length (coalesceDepthBuffer (splitDepthBuffer scenarioB)) = 3 \<and>
   \<not> PreferredNearFarRatio \<le>
       DepthBufferSpan.nearDistance (coalesceDepthBuffer (splitDepthBuffer scenarioB) ! 1) /
       DepthBufferSpan.farDistance (coalesceDepthBuffer (splitDepthBuffer scenarioB) ! 0) \<and>
   \<not> MinimumNearFarRatio \<le>
       DepthBufferSpan.nearDistance (coalesceDepthBuffer (splitDepthBuffer scenarioB) ! 2) /
       DepthBufferSpan.farDistance (coalesceDepthBuffer (splitDepthBuffer scenarioB) ! 2)"
  unfolding coalesce_scenarioB
  by (simp add: PreferredNearFarRatio_def MinimumNearFarRatio_def)

section \<open>The view-set state machine\<close>

text \<open>
  Claim C6. \<^verbatim>\<open>beginViewSet\<close> returns \<^verbatim>\<open>RendererUninitialized\<close> without a render
  context, whatever its arguments; with one, \<^verbatim>\<open>RendererBadParameter\<close> for a null
  universe, whether a view set is open or not; and \<^verbatim>\<open>RenderViewSetAlreadyStarted\<close>
  when a view set is open, so a second \<^verbatim>\<open>beginViewSet\<close> right after a successful one
  returns it. \<^verbatim>\<open>renderView\<close> and \<^verbatim>\<open>endViewSet\<close> return
  \<^verbatim>\<open>RenderNoViewSet\<close> when no view set is open; otherwise \<^verbatim>\<open>endViewSet\<close> clears
  the universe pointer and returns \<^verbatim>\<open>RenderOk\<close>. A call that fails changes nothing.
\<close>

theorem view_set_status:
  "(m_renderContext r = None \<longrightarrow> beginViewSet universe tsec r = (RendererUninitialized, r)) \<and>
   (m_renderContext r \<noteq> None \<longrightarrow> beginViewSet None tsec r = (RendererBadParameter, r)) \<and>
   (m_renderContext r \<noteq> None \<and> m_universe r \<noteq> None \<longrightarrow>
      beginViewSet (Some u) tsec r = (RenderViewSetAlreadyStarted, r)) \<and>
   (m_renderContext r \<noteq> None \<and> m_universe r = None \<longrightarrow>
      fst (beginViewSet (Some u) tsec r) = RenderOk \<and>
      m_universe (snd (beginViewSet (Some u) tsec r)) = Some u \<and>
      fst (beginViewSet (Some u') tsec' (snd (beginViewSet (Some u) tsec r)))
        = RenderViewSetAlreadyStarted) \<and>
   (m_universe r = None \<longrightarrow>
      renderView sortItems sortLights cameraPosition cameraOrient projection viewport r
        = Some (Inr (RenderNoViewSet, r))) \<and>
   (m_universe r = None \<longrightarrow> endViewSet r = (RenderNoViewSet, r)) \<and>
   (m_universe r \<noteq> None \<longrightarrow> endViewSet r = (RenderOk, r\<lparr> m_universe := None \<rparr>))"
  by (auto simp add: beginViewSet_def endViewSet_def renderView_def split: option.splits)

theorem view_set_status_witness:
  "beginViewSet (Some exampleUniverse) 0 (UniverseRenderer_new exampleFrustum)
     = (RendererUninitialized, UniverseRenderer_new exampleFrustum) \<and>
   beginViewSet None 0 idleRenderer = (RendererBadParameter, idleRenderer) \<and>
   fst (beginViewSet (Some exampleUniverse) 0 idleRenderer) = RenderOk \<and>
   fst (beginViewSet (Some exampleUniverse) 1 (snd (beginViewSet (Some exampleUniverse) 0 idleRenderer)))
     = RenderViewSetAlreadyStarted \<and>
   beginViewSet (Some exampleUniverse) 1 (snd (beginViewSet (Some exampleUniverse) 0 idleRenderer))
     = (RenderViewSetAlreadyStarted, snd (beginViewSet (Some exampleUniverse) 0 idleRenderer)) \<and>
   endViewSet idleRenderer = (RenderNoViewSet, idleRenderer) \<and>
   endViewSet (snd (beginViewSet (Some exampleUniverse) 0 idleRenderer))
     = (RenderOk, (snd (beginViewSet (Some exampleUniverse) 0 idleRenderer))\<lparr> m_universe := None \<rparr>)"
proof -
  have a: "m_renderContext (UniverseRenderer_new exampleFrustum) = None"
    by (simp add: UniverseRenderer_new_def)
  have b: "m_renderContext idleRenderer \<noteq> None" "m_universe idleRenderer = None"
    by (simp_all add: idleRenderer_def UniverseRenderer_new_def)
  let ?open = "snd (beginViewSet (Some exampleUniverse) 0 idleRenderer)"
  have c: "m_renderContext ?open \<noteq> None" "m_universe ?open \<noteq> None"
    using b by (simp_all add: beginViewSet_def)
  have t1: "beginViewSet (Some exampleUniverse) 0 (UniverseRenderer_new exampleFrustum)
      = (RendererUninitialized, UniverseRenderer_new exampleFrustum)"
    using view_set_status [where r = "UniverseRenderer_new exampleFrustum"
        and universe = "Some exampleUniverse" and tsec = 0] a by simp
  have t2: "beginViewSet None 0 idleRenderer = (RendererBadParameter, idleRenderer) \<and>
      fst (beginViewSet (Some exampleUniverse) 0 idleRenderer) = RenderOk \<and>
      fst (beginViewSet (Some exampleUniverse) 1 ?open) = RenderViewSetAlreadyStarted \<and>
      endViewSet idleRenderer = (RenderNoViewSet, idleRenderer)"
    using view_set_status [where r = idleRenderer and tsec = 0 and u = exampleUniverse
        and u' = exampleUniverse and tsec' = 1] b by simp
  have t3: "beginViewSet (Some exampleUniverse) 1 ?open = (RenderViewSetAlreadyStarted, ?open) \<and>
      endViewSet ?open = (RenderOk, ?open\<lparr> m_universe := None \<rparr>)"
    using view_set_status [where r = ?open and tsec = 1 and u = exampleUniverse] c by simp
  from t1 t2 t3 show ?thesis by simp
qed

section \<open>The visibility collector\<close>

text \<open>
  Claim C5. \<^verbatim>\<open>addVisibleItem\<close> takes the geometry's near plane distance, raises it to
  at least the bounding radius times \<^verbatim>\<open>MinimumNearFarRatio\<close> times 2 under
  \<^verbatim>\<open>PreserveDepthPrecision\<close> and to at least \<^verbatim>\<open>MinimumNearPlaneDistance\<close> under the
  other two policies, and then scales it by the adjustment factor. The item is appended to
  a list exactly when its far distance is positive and its near distance is below its far
  distance: to the splittable list when the policy is \<^verbatim>\<open>SplitToPreventClipping\<close>, to the
  visible list otherwise, the other list staying as it was.
\<close>

theorem addVisibleItem_admission:
  "itemNearDistance geom orient crp nearAdjust =
     max (nearPlaneDistance geom (conjugateRotate orient (vneg crp))) (nearClamp geom) * nearAdjust \<and>
   (0 \<le> nearAdjust \<longrightarrow> nearClamp geom * nearAdjust \<le> itemNearDistance geom orient crp nearAdjust) \<and>
   VisibleItem.nearDistance (newVisibleItem ent geom pos crp csp orient nearAdjust (m_viewFrustum r)) =
     itemNearDistance geom orient crp nearAdjust \<and>
   VisibleItem.farDistance (newVisibleItem ent geom pos crp csp orient nearAdjust (m_viewFrustum r)) =
     itemFarDistance geom csp \<and>
   (if 0 < itemFarDistance geom csp \<and>
       itemNearDistance geom orient crp nearAdjust < itemFarDistance geom csp
    then
      (if clippingPolicy geom = SplitToPreventClipping
       then m_splittableItems (addVisibleItem ent geom pos crp csp orient nearAdjust r) =
              m_splittableItems r @ [newVisibleItem ent geom pos crp csp orient nearAdjust (m_viewFrustum r)] \<and>
            m_visibleItems (addVisibleItem ent geom pos crp csp orient nearAdjust r) = m_visibleItems r
       else m_visibleItems (addVisibleItem ent geom pos crp csp orient nearAdjust r) =
              m_visibleItems r @ [newVisibleItem ent geom pos crp csp orient nearAdjust (m_viewFrustum r)] \<and>
            m_splittableItems (addVisibleItem ent geom pos crp csp orient nearAdjust r) = m_splittableItems r)
    else addVisibleItem ent geom pos crp csp orient nearAdjust r = r)"
proof -
  have a: "itemNearDistance geom orient crp nearAdjust =
     max (nearPlaneDistance geom (conjugateRotate orient (vneg crp))) (nearClamp geom) * nearAdjust"
    by (cases "clippingPolicy geom") (simp_all add: itemNearDistance_def nearClamp_def)
  have b: "0 \<le> nearAdjust \<longrightarrow> nearClamp geom * nearAdjust \<le> itemNearDistance geom orient crp nearAdjust"
    unfolding a by (simp add: mult_right_mono)
  show ?thesis
    using a b by (simp add: addVisibleItem_def newVisibleItem_def)
qed


theorem addVisibleItem_admission_witness:
  "itemNearDistance sceneSphere identityRotation (0, 0, -10) (1 / 2) = 1 / 1000 \<and>
   nearClamp sceneSphere * (1 / 2) \<le> itemNearDistance sceneSphere identityRotation (0, 0, -10) (1 / 2) \<and>
   itemFarDistance sceneSphere (0, 0, -10) = 11 \<and>
   m_visibleItems (addVisibleItem (exampleEntity (0, 0, -10) (Some sceneSphere) None) sceneSphere
      (0, 0, -10) (0, 0, -10) (0, 0, -10) identityRotation (1 / 2) idleRenderer) =
     [newVisibleItem (exampleEntity (0, 0, -10) (Some sceneSphere) None) sceneSphere
        (0, 0, -10) (0, 0, -10) (0, 0, -10) identityRotation (1 / 2) exampleFrustum] \<and>
   m_splittableItems (addVisibleItem (exampleEntity (0, 0, -10) (Some sceneSphere) None) sceneSphere
      (0, 0, -10) (0, 0, -10) (0, 0, -10) identityRotation (1 / 2) idleRenderer) = [] \<and>
   m_splittableItems (addVisibleItem (exampleEntity (0, 0, -10) (Some sceneTrajectory) None) sceneTrajectory
      (0, 0, -10) (0, 0, -10) (0, 0, -10) identityRotation (1 / 2) idleRenderer) =
     [newVisibleItem (exampleEntity (0, 0, -10) (Some sceneTrajectory) None) sceneTrajectory
        (0, 0, -10) (0, 0, -10) (0, 0, -10) identityRotation (1 / 2) exampleFrustum] \<and>
   addVisibleItem (exampleEntity (0, 0, 10) (Some sceneSphere) None) sceneSphere
      (0, 0, 10) (0, 0, 10) (0, 0, 10) identityRotation (1 / 2) idleRenderer = idleRenderer"
proof -
  have n: "nearClamp sceneSphere = 1 / 500" "nearClamp sceneTrajectory = 1 / 100000"
    by (simp_all add: nearClamp_def sceneSphere_def sceneTrajectory_def exampleGeometry_def
        MinimumNearFarRatio_def MinimumNearPlaneDistance_def)
  have g: "nearPlaneDistance sceneSphere v = 0" "nearPlaneDistance sceneTrajectory v = 0"
      "clippingPolicy sceneSphere = PreserveDepthPrecision"
      "clippingPolicy sceneTrajectory = SplitToPreventClipping" for v
    by (simp_all add: sceneSphere_def sceneTrajectory_def exampleGeometry_def)
  have f: "itemFarDistance sceneSphere (0, 0, -10) = 11" "itemFarDistance sceneTrajectory (0, 0, -10) = 60"
      "itemFarDistance sceneSphere (0, 0, 10) = -9"
    by (simp_all add: itemFarDistance_def vz_def sceneSphere_def sceneTrajectory_def exampleGeometry_def)
  have s: "m_visibleItems idleRenderer = []" "m_splittableItems idleRenderer = []"
      "m_viewFrustum idleRenderer = exampleFrustum"
    by (simp_all add: idleRenderer_def UniverseRenderer_new_def)
  note t1 = addVisibleItem_admission [where geom = sceneSphere and orient = identityRotation
      and crp = "(0, 0, -10)" and csp = "(0, 0, -10)" and nearAdjust = "1 / 2" and r = idleRenderer
      and ent = "exampleEntity (0, 0, -10) (Some sceneSphere) None" and pos = "(0, 0, -10)"]
  note t2 = addVisibleItem_admission [where geom = sceneTrajectory and orient = identityRotation
      and crp = "(0, 0, -10)" and csp = "(0, 0, -10)" and nearAdjust = "1 / 2" and r = idleRenderer
      and ent = "exampleEntity (0, 0, -10) (Some sceneTrajectory) None" and pos = "(0, 0, -10)"]
  note t3 = addVisibleItem_admission [where geom = sceneSphere and orient = identityRotation
      and crp = "(0, 0, 10)" and csp = "(0, 0, 10)" and nearAdjust = "1 / 2" and r = idleRenderer
      and ent = "exampleEntity (0, 0, 10) (Some sceneSphere) None" and pos = "(0, 0, 10)"]
  have n1: "itemNearDistance sceneSphere identityRotation (0, 0, -10) (1 / 2) = 1 / 1000"
    using t1 by (simp add: n g)
  have n2: "itemNearDistance sceneTrajectory identityRotation (0, 0, -10) (1 / 2) = 1 / 200000"
    using t2 by (simp add: n g)
  have c1: "m_visibleItems (addVisibleItem (exampleEntity (0, 0, -10) (Some sceneSphere) None) sceneSphere
      (0, 0, -10) (0, 0, -10) (0, 0, -10) identityRotation (1 / 2) idleRenderer) =
     [newVisibleItem (exampleEntity (0, 0, -10) (Some sceneSphere) None) sceneSphere
        (0, 0, -10) (0, 0, -10) (0, 0, -10) identityRotation (1 / 2) exampleFrustum] \<and>
   m_splittableItems (addVisibleItem (exampleEntity (0, 0, -10) (Some sceneSphere) None) sceneSphere
      (0, 0, -10) (0, 0, -10) (0, 0, -10) identityRotation (1 / 2) idleRenderer) = []"
    using t1 by (simp add: n1 f g s)
  have c2: "m_splittableItems (addVisibleItem (exampleEntity (0, 0, -10) (Some sceneTrajectory) None) sceneTrajectory
      (0, 0, -10) (0, 0, -10) (0, 0, -10) identityRotation (1 / 2) idleRenderer) =
     [newVisibleItem (exampleEntity (0, 0, -10) (Some sceneTrajectory) None) sceneTrajectory
        (0, 0, -10) (0, 0, -10) (0, 0, -10) identityRotation (1 / 2) exampleFrustum]"
    using t2 by (simp add: n2 f g s)
  have c3: "addVisibleItem (exampleEntity (0, 0, 10) (Some sceneSphere) None) sceneSphere
      (0, 0, 10) (0, 0, 10) (0, 0, 10) identityRotation (1 / 2) idleRenderer = idleRenderer"
    using t3 by (simp add: f)
  from n1 n f c1 c2 c3 show ?thesis by simp
qed

section \<open>Culling thresholds\<close>

lemma vnorm_unit [simp]: "vnorm (0, 0, -1) = 1" "vnorm (0, -1, 0) = 1"
  by (simp_all add: vnorm_def)






section \<open>The light selector\<close>

lemma sort_key_contract:
  fixes f :: "'a \<Rightarrow> 'b::linorder"
  shows "std_sort_contract (\<lambda>a b. f a < f b) (sort_key f)"
  unfolding std_sort_contract_def
proof (intro allI conjI)
  fix xs :: "'a list"
  show "mset (sort_key f xs) = mset xs" by simp
  have "sorted (map f (sort_key f xs))" by (rule sorted_sort_key)
  then show "sorted_wrt (\<lambda>a b. \<not> f b < f a) (sort_key f xs)"
    by (simp add: sorted_wrt_map not_less)
qed

lemma lightCastsShadowsPredicate_key:
  "lightCastsShadowsPredicate = (\<lambda>a b. - shadowFlag a < - shadowFlag b)"
  by (intro ext) (simp add: lightCastsShadowsPredicate_def)

lemma visibleItemPredicate_key:
  "visibleItemPredicate = (\<lambda>a b. VisibleItem.farDistance a < VisibleItem.farDistance b)"
  by (intro ext) (simp add: visibleItemPredicate_def)

lemma stableLightSort_contract: "std_sort_contract lightCastsShadowsPredicate stableLightSort"
  unfolding lightCastsShadowsPredicate_key
  using sort_key_contract [of "\<lambda>l. - shadowFlag l"]
  by (simp add: stableLightSort_def [abs_def])

lemma stableItemSort_contract: "std_sort_contract visibleItemPredicate stableItemSort"
  unfolding visibleItemPredicate_key
  using sort_key_contract [of VisibleItem.farDistance]
  by (simp add: stableItemSort_def [abs_def])











text \<open>Up to sixteen lights, \<^verbatim>\<open>std::sort\<close> is the insertion sort alone.\<close>

lemma lampScene_kept:
  "keepVisibleLights exampleContext (m_viewFrustum lampScene) (0, 0, 0) (m_lightSources lampScene) =
     [visibleLight (0, 0, 0) sunItem, visibleLight (0, 0, 0) lampItemA, visibleLight (0, 0, 0) lampItemB]"
  by (simp add: lampScene_def idleRenderer_def UniverseRenderer_new_def lightCull_def
      sunItem_def lampItemA_def lampItemB_def lampA_def lampB_def vsub_def projectedSize_def
      exampleContext_def exampleFrustum_def)

lemma lamp_flags:
  "shadowFlag (visibleLight c sunItem) = 1" "shadowFlag (visibleLight c lampItemA) = 0"
  "shadowFlag (visibleLight c lampItemB) = 0"
  by (simp_all add: shadowFlag_def visibleLight_def sunItem_def lampItemA_def lampItemB_def
      lampA_def lampB_def)

lemma std_sort_lampScene:
  "m_visibleLightSources
     (buildVisibleLightSourceList (std_sort lightCastsShadowsPredicate) (0, 0, 0) exampleContext lampScene) =
     [visibleLight (0, 0, 0) sunItem, visibleLight (0, 0, 0) lampItemA, visibleLight (0, 0, 0) lampItemB]"
  by (simp add: buildVisibleLightSourceList_def lampScene_kept std_sort_def lg.simps
      introsort_loop.simps final_insertion_sort_def insertion_sort_def insertion_sort_loop.simps
      unguarded_linear_insert.simps lightCastsShadowsPredicate_def lamp_flags)





section \<open>Enabling shadows\<close>

text \<open>
  Claim C10. \<^verbatim>\<open>setShadowsEnabled\<close> is meant to leave shadows off unless the first
  shadow map is there and valid. With an empty pool it reads \<^verbatim>\<open>m_shadowMaps[0]\<close> out
  of range: on a new renderer, after an \<^verbatim>\<open>initializeShadowMaps\<close> that found shadows
  unsupported, and after one that was asked for zero maps (which reports success).
\<close>

theorem setShadowsEnabled_empty_pool:
  "setShadowsEnabled enable (UniverseRenderer_new defaultFrustum) = Inl OutOfRange \<and>
   setShadowsEnabled enable
     (snd (initializeShadowMaps False MaxShadowMaps maxTexSize create shadowMapSize shadowMapCount
        (snd (initializeGraphics (Some rc) (UniverseRenderer_new defaultFrustum))))) = Inl OutOfRange \<and>
   initializeShadowMaps True MaxShadowMaps maxTexSize create shadowMapSize 0
     (snd (initializeGraphics (Some rc) (UniverseRenderer_new defaultFrustum))) =
       (True, snd (initializeGraphics (Some rc) (UniverseRenderer_new defaultFrustum))) \<and>
   setShadowsEnabled enable
     (snd (initializeShadowMaps True MaxShadowMaps maxTexSize create shadowMapSize 0
        (snd (initializeGraphics (Some rc) (UniverseRenderer_new defaultFrustum))))) = Inl OutOfRange"
  by (simp add: setShadowsEnabled_def UniverseRenderer_new_def initializeShadowMaps_def
      initializeGraphics_def)


text \<open>
  Where \<^verbatim>\<open>setShadowsEnabled\<close> returns, it sets the flag exactly when the first shadow
  map is usable, and together with \<^verbatim>\<open>initializeShadowMaps\<close> it keeps shadows off
  while the pool is not usable.
\<close>

lemma setShadowsEnabled_usable:
  "setShadowsEnabled enable r = Inr r' \<Longrightarrow>
   r' = (if shadowMapsUsable r then r\<lparr> m_shadowsEnabled := enable \<rparr> else r)"
  by (auto simp add: setShadowsEnabled_def shadowMapsUsable_def split: list.splits option.splits if_splits)

lemma setShadowsEnabled_invariant:
  "m_shadowsEnabled r \<longrightarrow> shadowMapsUsable r \<Longrightarrow> setShadowsEnabled enable r = Inr r' \<Longrightarrow>
   m_shadowsEnabled r' \<longrightarrow> shadowMapsUsable r'"
  by (auto simp add: setShadowsEnabled_def shadowMapsUsable_def split: list.splits option.splits if_splits)

lemma createShadowMaps_failed:
  "createShadowMaps create mapSize i n maps = (False, maps') \<Longrightarrow> maps' = []"
  by (induction n arbitrary: i maps) (auto split: option.splits)

lemma initializeShadowMaps_invariant:
  "m_shadowsEnabled r \<longrightarrow> shadowMapsUsable r \<Longrightarrow>
   initializeShadowMaps supported MaxShadowMaps maxTexSize create shadowMapSize shadowMapCount r = (ok, r') \<Longrightarrow>
   m_shadowsEnabled r' \<longrightarrow> shadowMapsUsable r'"
  by (auto simp add: initializeShadowMaps_def split: if_splits prod.splits)

section \<open>Extra spans for splittable items\<close>

lemma frontSpan_ratio:
  "frontSpan pn s \<Longrightarrow> DepthBufferSpan.farDistance s \<le> MaxFarNearRatio * DepthBufferSpan.nearDistance s"
proof -
  assume "frontSpan pn s"
  then have "DepthBufferSpan.farDistance s / MaxFarNearRatio \<le> DepthBufferSpan.nearDistance s"
    by (simp add: frontSpan_def)
  then show ?thesis by (simp add: MaxFarNearRatio_def field_simps)
qed

lemma addFrontSpans_steps:
  assumes pn: "0 < pn"
  shows "DepthBufferSpan.nearDistance (last merged) \<le> pn * MaxFarNearRatio ^ k \<Longrightarrow>
     \<exists>fronts. addFrontSpans pn merged = Some (merged @ fronts) \<and>
       list_all (frontSpan pn) fronts \<and>
       successively abuts (last merged # fronts) \<and>
       DepthBufferSpan.nearDistance (last (last merged # fronts)) \<le> pn \<and>
       (pn \<le> DepthBufferSpan.nearDistance (last merged) \<longrightarrow>
          DepthBufferSpan.nearDistance (last (last merged # fronts)) = pn)"
proof (induction k arbitrary: merged)
  case 0
  then have "\<not> DepthBufferSpan.nearDistance (last merged) > pn" by simp
  then have "addFrontSpans pn merged = Some merged"
    by (subst addFrontSpans.simps) simp
  with 0 show ?case by (intro exI [of _ "[]"]) simp
next
  case (Suc k)
  show ?case
  proof (cases "DepthBufferSpan.nearDistance (last merged) > pn")
    case False
    then have "addFrontSpans pn merged = Some merged"
      by (subst addFrontSpans.simps) simp
    with False show ?thesis by (intro exI [of _ "[]"]) simp
  next
    case True
    let ?front = "\<lparr> backItemIndex = 0, itemCount = 0,
               DepthBufferSpan.farDistance = DepthBufferSpan.nearDistance (last merged),
               DepthBufferSpan.nearDistance =
                 max pn (DepthBufferSpan.nearDistance (last merged) / MaxFarNearRatio) \<rparr>"
    have unf: "addFrontSpans pn merged = addFrontSpans pn (merged @ [?front])"
      by (subst addFrontSpans.simps) (simp add: True)
    have one: "1 \<le> MaxFarNearRatio ^ k" by (simp add: MaxFarNearRatio_def)
    have "pn * 1 \<le> pn * MaxFarNearRatio ^ k"
      using pn one by (intro mult_left_mono) simp_all
    moreover have "DepthBufferSpan.nearDistance (last merged) / MaxFarNearRatio \<le> pn * MaxFarNearRatio ^ k"
      using Suc.prems by (simp add: MaxFarNearRatio_def field_simps)
    ultimately have "DepthBufferSpan.nearDistance (last (merged @ [?front])) \<le> pn * MaxFarNearRatio ^ k"
      by simp
    from Suc.IH [OF this] obtain fronts where
      f: "addFrontSpans pn (merged @ [?front]) = Some ((merged @ [?front]) @ fronts)"
        "list_all (frontSpan pn) fronts"
        "successively abuts (last (merged @ [?front]) # fronts)"
        "DepthBufferSpan.nearDistance (last (last (merged @ [?front]) # fronts)) \<le> pn"
        "pn \<le> DepthBufferSpan.nearDistance (last (merged @ [?front])) \<longrightarrow>
          DepthBufferSpan.nearDistance (last (last (merged @ [?front]) # fronts)) = pn"
      by blast
    have "addFrontSpans pn merged = Some (merged @ (?front # fronts))"
      unfolding unf f(1) by simp
    moreover have "list_all (frontSpan pn) (?front # fronts)"
      using f(2) by (simp add: frontSpan_def)
    moreover have "successively abuts (last merged # ?front # fronts)"
      using f(3) by (simp add: abuts_def)
    moreover have "DepthBufferSpan.nearDistance (last (last merged # ?front # fronts)) \<le> pn"
      using f(4) by simp
    moreover have "DepthBufferSpan.nearDistance (last (last merged # ?front # fronts)) = pn"
      using f(5) by simp
    ultimately show ?thesis by blast
  qed
qed

lemma addFrontSpans_returns:
  assumes pn: "0 < pn"
  shows "\<exists>fronts. addFrontSpans pn merged = Some (merged @ fronts) \<and>
       list_all (frontSpan pn) fronts \<and>
       successively abuts (last merged # fronts) \<and>
       DepthBufferSpan.nearDistance (last (last merged # fronts)) \<le> pn \<and>
       (pn \<le> DepthBufferSpan.nearDistance (last merged) \<longrightarrow>
          DepthBufferSpan.nearDistance (last (last merged # fronts)) = pn)"
proof -
  have "(1::real) < MaxFarNearRatio" by (simp add: MaxFarNearRatio_def)
  from real_arch_pow [OF this, of "DepthBufferSpan.nearDistance (last merged) / pn"]
  obtain k where "DepthBufferSpan.nearDistance (last merged) / pn < MaxFarNearRatio ^ k" ..
  with pn have "DepthBufferSpan.nearDistance (last merged) \<le> pn * MaxFarNearRatio ^ k"
    by (simp add: field_simps)
  from addFrontSpans_steps [OF pn this] show ?thesis .
qed

lemma coalesceLoop_extends:
  "\<exists>more. coalesceLoop spans i merged = merged @ more \<and> (i < length spans \<longrightarrow> more \<noteq> [])"
proof (induction spans i merged rule: coalesceLoop.induct)
  case (1 spans i merged)
  show ?case
  proof (cases "i < length spans")
    case False
    then have "coalesceLoop spans i merged = merged"
      by (subst coalesceLoop.simps) simp
    with False show ?thesis by simp
  next
    case True
    from "1.IH" [OF True] obtain more where
      "coalesceLoop spans
          (fst (mergeScan spans (DepthBufferSpan.farDistance (spans ! i)) i (itemCount (spans ! i))) + 1)
          (merged @
           [\<lparr> backItemIndex = backItemIndex (spans ! i),
               itemCount = snd (mergeScan spans (DepthBufferSpan.farDistance (spans ! i)) i (itemCount (spans ! i))),
               DepthBufferSpan.farDistance = DepthBufferSpan.farDistance (spans ! i),
               DepthBufferSpan.nearDistance =
                 DepthBufferSpan.nearDistance
                   (spans ! fst (mergeScan spans (DepthBufferSpan.farDistance (spans ! i)) i (itemCount (spans ! i)))) \<rparr>])
        = (merged @
           [\<lparr> backItemIndex = backItemIndex (spans ! i),
               itemCount = snd (mergeScan spans (DepthBufferSpan.farDistance (spans ! i)) i (itemCount (spans ! i))),
               DepthBufferSpan.farDistance = DepthBufferSpan.farDistance (spans ! i),
               DepthBufferSpan.nearDistance =
                 DepthBufferSpan.nearDistance
                   (spans ! fst (mergeScan spans (DepthBufferSpan.farDistance (spans ! i)) i (itemCount (spans ! i)))) \<rparr>]) @ more"
      by blast
    then show ?thesis
      by (subst coalesceLoop.simps) (simp add: True)
  qed
qed

lemma coalesceDepthBuffer_Nil [simp]: "coalesceDepthBuffer [] = []"
  by (simp add: coalesceDepthBuffer_def coalesceLoop.simps)

lemma splitDepthBuffer_Nil [simp]: "splitDepthBuffer [] = []"
  by (simp add: splitDepthBuffer_def)

lemma coalesceDepthBuffer_not_Nil: "spans \<noteq> [] \<Longrightarrow> coalesceDepthBuffer spans \<noteq> []"
  using coalesceLoop_extends [of spans 0 "[]"] by (auto simp add: coalesceDepthBuffer_def)


text \<open>
  Claim C3, as amended. With no visible item and at least one splittable item, and a
  projection whose near distance is positive, the block of \<^verbatim>\<open>renderView\<close> returns
  and leaves synthetic spans only, at least two: first a span from the projection's far
  distance to \<^verbatim>\<open>MaxFarNearRatio\<close> times that, then the span that ends at the
  projection's far distance and begins at the larger of the projection's near distance and
  the far distance over \<^verbatim>\<open>MaxFarNearRatio\<close>, then front spans, each beginning where
  the one before ends, down to exactly the projection's near distance.
\<close>

theorem only_splittable_spans:
  assumes "splittable \<noteq> []" and "0 < PlanarProjection.nearDistance projection"
  shows "\<exists>fronts.
     extendDepthSpans projection splittable (splitDepthBuffer [])
         (coalesceDepthBuffer (splitDepthBuffer [])) =
       Some (Inr
         (\<lparr> backItemIndex = 0, itemCount = 0,
             DepthBufferSpan.farDistance = PlanarProjection.farDistance projection * MaxFarNearRatio,
             DepthBufferSpan.nearDistance = PlanarProjection.farDistance projection \<rparr>
          # \<lparr> backItemIndex = 0, itemCount = 0,
             DepthBufferSpan.farDistance = PlanarProjection.farDistance projection,
             DepthBufferSpan.nearDistance =
               max (PlanarProjection.nearDistance projection)
                   (PlanarProjection.farDistance projection / MaxFarNearRatio) \<rparr>
          # fronts)) \<and>
     list_all (frontSpan (PlanarProjection.nearDistance projection)) fronts \<and>
     successively abuts
       (\<lparr> backItemIndex = 0, itemCount = 0,
           DepthBufferSpan.farDistance = PlanarProjection.farDistance projection,
           DepthBufferSpan.nearDistance =
             max (PlanarProjection.nearDistance projection)
                 (PlanarProjection.farDistance projection / MaxFarNearRatio) \<rparr>
        # fronts) \<and>
     DepthBufferSpan.nearDistance
       (last (\<lparr> backItemIndex = 0, itemCount = 0,
                 DepthBufferSpan.farDistance = PlanarProjection.farDistance projection,
                 DepthBufferSpan.nearDistance =
                   max (PlanarProjection.nearDistance projection)
                       (PlanarProjection.farDistance projection / MaxFarNearRatio) \<rparr>
              # fronts)) = PlanarProjection.nearDistance projection"
proof -
  let ?pn = "PlanarProjection.nearDistance projection"
  let ?backSpan = "\<lparr> backItemIndex = 0, itemCount = 0,
             DepthBufferSpan.farDistance = PlanarProjection.farDistance projection,
             DepthBufferSpan.nearDistance =
               max ?pn (PlanarProjection.farDistance projection / MaxFarNearRatio) \<rparr>"
  from assms(1) obtain firstItem others where sp: "splittable = firstItem # others"
    by (cases splittable) auto
  from addFrontSpans_returns [OF assms(2), of "[?backSpan]"] obtain fronts where
    f: "addFrontSpans ?pn [?backSpan] = Some ([?backSpan] @ fronts)"
      "list_all (frontSpan ?pn) fronts"
      "successively abuts (last [?backSpan] # fronts)"
      "?pn \<le> DepthBufferSpan.nearDistance (last [?backSpan]) \<longrightarrow>
          DepthBufferSpan.nearDistance (last (last [?backSpan] # fronts)) = ?pn"
    by blast
  have "extendDepthSpans projection splittable (splitDepthBuffer [])
         (coalesceDepthBuffer (splitDepthBuffer [])) =
       Some (Inr (outerBackSpan (?backSpan # fronts) # ?backSpan # fronts))"
    using f(1) by (simp add: extendDepthSpans_def sp addBackSpan_def)
  with f(2,3,4) show ?thesis
    by (intro exI [of _ fronts]) (simp add: outerBackSpan_def)
qed


theorem only_splittable_spans_witness:
  "\<exists>fronts.
     extendDepthSpans (exampleProjection 1 100) [exampleItem 1 50] (splitDepthBuffer [])
         (coalesceDepthBuffer (splitDepthBuffer [])) =
       Some (Inr
         (\<lparr> backItemIndex = 0, itemCount = 0,
             DepthBufferSpan.farDistance = 1000000, DepthBufferSpan.nearDistance = 100 \<rparr>
          # \<lparr> backItemIndex = 0, itemCount = 0,
             DepthBufferSpan.farDistance = 100, DepthBufferSpan.nearDistance = 1 \<rparr>
          # fronts)) \<and>
     DepthBufferSpan.nearDistance
       (last (\<lparr> backItemIndex = 0, itemCount = 0,
                 DepthBufferSpan.farDistance = 100, DepthBufferSpan.nearDistance = 1 \<rparr>
              # fronts)) = 1"
proof -
  have h1: "[exampleItem 1 50] \<noteq> []" by simp
  have h2: "0 < PlanarProjection.nearDistance (exampleProjection 1 100)"
    by (simp add: exampleProjection_def)
  have v: "PlanarProjection.nearDistance (exampleProjection 1 100) = 1"
    "PlanarProjection.farDistance (exampleProjection 1 100) = 100"
    "max (1::real) (100 / MaxFarNearRatio) = 1" "100 * MaxFarNearRatio = (1000000::real)"
    by (simp_all add: exampleProjection_def MaxFarNearRatio_def)
  from only_splittable_spans [OF h1 h2] show ?thesis
    unfolding v by blast
qed


text \<open>
  The claim as written promises exactly one span. With near distance 1 and far distance
  100 there are two, and with the near and far distances of the observer's projection
  (\<^verbatim>\<open>MinimumNearPlaneDistance\<close>, \<^verbatim>\<open>MaximumFarPlaneDistance\<close>) there are six.
\<close>

theorem only_splittable_spans_counterexample:
  "extendDepthSpans (exampleProjection 1 100) [exampleItem 1 50] (splitDepthBuffer [])
       (coalesceDepthBuffer (splitDepthBuffer [])) =
     Some (Inr
       [\<lparr> backItemIndex = 0, itemCount = 0,
           DepthBufferSpan.farDistance = 1000000, DepthBufferSpan.nearDistance = 100 \<rparr>,
        \<lparr> backItemIndex = 0, itemCount = 0,
           DepthBufferSpan.farDistance = 100, DepthBufferSpan.nearDistance = 1 \<rparr>]) \<and>
   extendDepthSpans (exampleProjection (1 / 100000) 1000000000000) [exampleItem 1 50]
       (splitDepthBuffer []) (coalesceDepthBuffer (splitDepthBuffer [])) =
     Some (Inr
       [\<lparr> backItemIndex = 0, itemCount = 0,
           DepthBufferSpan.farDistance = 10000000000000000, DepthBufferSpan.nearDistance = 1000000000000 \<rparr>,
        \<lparr> backItemIndex = 0, itemCount = 0,
           DepthBufferSpan.farDistance = 1000000000000, DepthBufferSpan.nearDistance = 100000000 \<rparr>,
        \<lparr> backItemIndex = 0, itemCount = 0,
           DepthBufferSpan.farDistance = 100000000, DepthBufferSpan.nearDistance = 10000 \<rparr>,
        \<lparr> backItemIndex = 0, itemCount = 0,
           DepthBufferSpan.farDistance = 10000, DepthBufferSpan.nearDistance = 1 \<rparr>,
        \<lparr> backItemIndex = 0, itemCount = 0,
           DepthBufferSpan.farDistance = 1, DepthBufferSpan.nearDistance = 1 / 10000 \<rparr>,
        \<lparr> backItemIndex = 0, itemCount = 0,
           DepthBufferSpan.farDistance = 1 / 10000, DepthBufferSpan.nearDistance = 1 / 100000 \<rparr>])"
  by (simp add: extendDepthSpans_def addBackSpan_def addFrontSpans.simps outerBackSpan_def
      exampleProjection_def MaxFarNearRatio_def)

text \<open>
  What the block does with splittable items, a positive near distance of the projection
  and at least one raw span: it returns, and the merged spans are extended at both ends by
  synthetic spans. At the back: always an outermost span that begins at the far distance of
  the span behind it and whose far distance is \<^verbatim>\<open>MaxFarNearRatio\<close> times its near
  distance; and, when the far distance of the first splittable item (clamped to the
  projection's far distance) lies beyond the farthest merged span, one more span from there
  up to that distance, whose ratio nothing bounds. At the front: spans that each begin
  where the one before ends, with a far distance of at most \<^verbatim>\<open>MaxFarNearRatio\<close>
  times the near distance, until the foremost span's near distance is at most the
  projection's near distance.
\<close>

lemma splittable_span_extension:
  assumes "splittable \<noteq> []" and "0 < PlanarProjection.nearDistance projection" and "spans \<noteq> []"
  shows "\<exists>fronts.
     extendDepthSpans projection splittable spans (coalesceDepthBuffer spans) =
       Some (Inr (outerBackSpan (backSpans projection splittable (coalesceDepthBuffer spans) @ coalesceDepthBuffer spans)
                  # backSpans projection splittable (coalesceDepthBuffer spans) @ coalesceDepthBuffer spans @ fronts)) \<and>
     itemCount (outerBackSpan (backSpans projection splittable (coalesceDepthBuffer spans) @ coalesceDepthBuffer spans)) = 0 \<and>
     DepthBufferSpan.farDistance
         (outerBackSpan (backSpans projection splittable (coalesceDepthBuffer spans) @ coalesceDepthBuffer spans)) =
       DepthBufferSpan.nearDistance
         (outerBackSpan (backSpans projection splittable (coalesceDepthBuffer spans) @ coalesceDepthBuffer spans))
       * MaxFarNearRatio \<and>
     abuts (outerBackSpan (backSpans projection splittable (coalesceDepthBuffer spans) @ coalesceDepthBuffer spans))
       (hd (backSpans projection splittable (coalesceDepthBuffer spans) @ coalesceDepthBuffer spans)) \<and>
     list_all (\<lambda>b. itemCount b = 0 \<and> abuts b (hd (coalesceDepthBuffer spans)) \<and>
                   DepthBufferSpan.farDistance (hd (coalesceDepthBuffer spans)) < DepthBufferSpan.farDistance b \<and>
                   DepthBufferSpan.farDistance b \<le> PlanarProjection.farDistance projection)
       (backSpans projection splittable (coalesceDepthBuffer spans)) \<and>
     list_all (frontSpan (PlanarProjection.nearDistance projection)) fronts \<and>
     list_all (\<lambda>s. DepthBufferSpan.farDistance s \<le> MaxFarNearRatio * DepthBufferSpan.nearDistance s) fronts \<and>
     successively abuts (last (coalesceDepthBuffer spans) # fronts) \<and>
     DepthBufferSpan.nearDistance (last (coalesceDepthBuffer spans @ fronts))
       \<le> PlanarProjection.nearDistance projection"
proof -
  let ?pn = "PlanarProjection.nearDistance projection"
  let ?merged = "coalesceDepthBuffer spans"
  from assms(1) obtain firstItem others where sp: "splittable = firstItem # others"
    by (cases splittable) auto
  let ?furthest = "min (VisibleItem.farDistance firstItem) (PlanarProjection.farDistance projection)"
  let ?backSpan = "\<lparr> backItemIndex = 0, itemCount = 0,
                DepthBufferSpan.farDistance = ?furthest,
                DepthBufferSpan.nearDistance = DepthBufferSpan.farDistance (hd ?merged) \<rparr>"
  let ?backs = "if ?furthest > DepthBufferSpan.farDistance (hd ?merged) then [?backSpan] else []"
  have bs: "backSpans projection splittable ?merged = ?backs"
    by (simp add: backSpans_def sp)
  have mne: "?merged \<noteq> []" using assms(3) by (rule coalesceDepthBuffer_not_Nil)
  then obtain front rest where m: "?merged = front # rest" by (cases ?merged) auto
  have ab: "addBackSpan projection ?furthest spans ?merged = Inr (?backs @ ?merged)"
    using assms(3) by (simp add: addBackSpan_def m)
  have lastm: "last (?backs @ ?merged) = last ?merged" using mne by simp
  from addFrontSpans_returns [OF assms(2), of "?backs @ ?merged"] obtain fronts where
    f: "addFrontSpans ?pn (?backs @ ?merged) = Some ((?backs @ ?merged) @ fronts)"
      "list_all (frontSpan ?pn) fronts"
      "successively abuts (last ?merged # fronts)"
      "DepthBufferSpan.nearDistance (last (last ?merged # fronts)) \<le> ?pn"
    unfolding lastm by blast
  have res: "extendDepthSpans projection splittable spans ?merged =
      Some (Inr (outerBackSpan (?backs @ ?merged @ fronts) # ?backs @ ?merged @ fronts))"
    using f(1) by (simp add: extendDepthSpans_def sp ab)
  have hd_eq: "hd (?backs @ ?merged @ fronts) = hd (?backs @ ?merged)"
    using mne by (simp add: hd_append)
  have outer: "outerBackSpan (?backs @ ?merged @ fronts) = outerBackSpan (?backs @ ?merged)"
    unfolding outerBackSpan_def hd_eq ..
  have ratio: "list_all (\<lambda>s. DepthBufferSpan.farDistance s \<le> MaxFarNearRatio * DepthBufferSpan.nearDistance s) fronts"
    using f(2) by (auto simp add: list_all_iff dest: frontSpan_ratio)
  have lastf: "DepthBufferSpan.nearDistance (last (?merged @ fronts)) \<le> ?pn"
    using f(4) mne by (cases "fronts = []") simp_all
  show ?thesis
    unfolding bs
  proof (rule exI [of _ fronts], intro conjI)
    show "extendDepthSpans projection splittable spans ?merged =
       Some (Inr (outerBackSpan (?backs @ ?merged) # ?backs @ ?merged @ fronts))"
      using res outer by simp
    show "itemCount (outerBackSpan (?backs @ ?merged)) = 0"
      by (simp add: outerBackSpan_def)
    show "DepthBufferSpan.farDistance (outerBackSpan (?backs @ ?merged)) =
       DepthBufferSpan.nearDistance (outerBackSpan (?backs @ ?merged)) * MaxFarNearRatio"
      by (simp add: outerBackSpan_def)
    show "abuts (outerBackSpan (?backs @ ?merged)) (hd (?backs @ ?merged))"
      by (simp add: outerBackSpan_def abuts_def)
    show "list_all (\<lambda>b. itemCount b = 0 \<and> abuts b (hd ?merged) \<and>
                   DepthBufferSpan.farDistance (hd ?merged) < DepthBufferSpan.farDistance b \<and>
                   DepthBufferSpan.farDistance b \<le> PlanarProjection.farDistance projection) ?backs"
      by (simp add: abuts_def)
    show "list_all (frontSpan ?pn) fronts" by (rule f(2))
    show "list_all (\<lambda>s. DepthBufferSpan.farDistance s \<le> MaxFarNearRatio * DepthBufferSpan.nearDistance s) fronts"
      by (rule ratio)
    show "successively abuts (last ?merged # fronts)" by (rule f(3))
    show "DepthBufferSpan.nearDistance (last (?merged @ fronts)) \<le> ?pn" by (rule lastf)
  qed
qed


lemma coalesce_nearItem:
  "coalesceDepthBuffer (splitDepthBuffer nearItem) =
     [\<lparr> backItemIndex = 0, itemCount = 1, DepthBufferSpan.farDistance = 10, DepthBufferSpan.nearDistance = 1 \<rparr>]"
  by (simp add: nearItem_def splitDepthBuffer_def splitStep_def exampleItem_def
      coalesceDepthBuffer_def coalesceLoop.simps mergeScan.simps)

lemma extend_nearItem:
  "extendDepthSpans (exampleProjection 1 1000000000000) [exampleItem 1 1000000000]
       (splitDepthBuffer nearItem) (coalesceDepthBuffer (splitDepthBuffer nearItem)) =
     Some (Inr
       [\<lparr> backItemIndex = 0, itemCount = 0,
           DepthBufferSpan.farDistance = 10000000000000, DepthBufferSpan.nearDistance = 1000000000 \<rparr>,
        \<lparr> backItemIndex = 0, itemCount = 0,
           DepthBufferSpan.farDistance = 1000000000, DepthBufferSpan.nearDistance = 10 \<rparr>,
        \<lparr> backItemIndex = 0, itemCount = 1,
           DepthBufferSpan.farDistance = 10, DepthBufferSpan.nearDistance = 1 \<rparr>])"
  unfolding coalesce_nearItem
  by (simp add: nearItem_def splitDepthBuffer_def splitStep_def
      extendDepthSpans_def addBackSpan_def addFrontSpans.simps outerBackSpan_def
      exampleProjection_def exampleItem_def MaxFarNearRatio_def)


lemma splittable_span_extension_example:
  "\<exists>fronts.
     extendDepthSpans (exampleProjection 1 1000000000000) [exampleItem 1 1000000000]
         (splitDepthBuffer nearItem) (coalesceDepthBuffer (splitDepthBuffer nearItem)) =
       Some (Inr (outerBackSpan (backSpans (exampleProjection 1 1000000000000) [exampleItem 1 1000000000]
                                   (coalesceDepthBuffer (splitDepthBuffer nearItem))
                                 @ coalesceDepthBuffer (splitDepthBuffer nearItem))
                  # backSpans (exampleProjection 1 1000000000000) [exampleItem 1 1000000000]
                      (coalesceDepthBuffer (splitDepthBuffer nearItem))
                    @ coalesceDepthBuffer (splitDepthBuffer nearItem) @ fronts)) \<and>
     list_all (frontSpan 1) fronts \<and>
     DepthBufferSpan.nearDistance (last (coalesceDepthBuffer (splitDepthBuffer nearItem) @ fronts)) \<le> 1"
proof -
  have h1: "[exampleItem 1 1000000000] \<noteq> []" by simp
  have h2: "0 < PlanarProjection.nearDistance (exampleProjection 1 1000000000000)"
    by (simp add: exampleProjection_def)
  have h3: "splitDepthBuffer nearItem \<noteq> []"
    by (simp add: nearItem_def splitDepthBuffer_def splitStep_def)
  have v: "PlanarProjection.nearDistance (exampleProjection 1 1000000000000) = 1"
    by (simp add: exampleProjection_def)
  from splittable_span_extension [OF h1 h2 h3] show ?thesis
    unfolding v by blast
qed


text \<open>
  The span inserted up to \<^verbatim>\<open>furthestDistance\<close> has no bound on its ratio: for a
  splittable item that reaches to 1000000000, behind a visible item that ends at 10, its
  far distance is 100000000 times its near distance.
\<close>

lemma back_span_ratio_unbounded:
  "extendDepthSpans (exampleProjection 1 1000000000000) [exampleItem 1 1000000000]
       (splitDepthBuffer nearItem) (coalesceDepthBuffer (splitDepthBuffer nearItem)) =
     Some (Inr
       [\<lparr> backItemIndex = 0, itemCount = 0,
           DepthBufferSpan.farDistance = 10000000000000, DepthBufferSpan.nearDistance = 1000000000 \<rparr>,
        \<lparr> backItemIndex = 0, itemCount = 0,
           DepthBufferSpan.farDistance = 1000000000, DepthBufferSpan.nearDistance = 10 \<rparr>,
        \<lparr> backItemIndex = 0, itemCount = 1,
           DepthBufferSpan.farDistance = 10, DepthBufferSpan.nearDistance = 1 \<rparr>]) \<and>
   \<not> DepthBufferSpan.farDistance
         \<lparr> backItemIndex = 0, itemCount = 0,
           DepthBufferSpan.farDistance = 1000000000, DepthBufferSpan.nearDistance = 10 \<rparr>
       \<le> MaxFarNearRatio *
         DepthBufferSpan.nearDistance
           \<lparr> backItemIndex = 0, itemCount = 0,
             DepthBufferSpan.farDistance = 1000000000, DepthBufferSpan.nearDistance = 10 \<rparr>"
  using extend_nearItem by (simp add: MaxFarNearRatio_def)


text \<open>
  Claim C4. The claim has a back span added whenever no span covers the far distance of the
  farthest splittable item. The code takes \<^verbatim>\<open>furthestDistance\<close> from
  \<^verbatim>\<open>m_splittableItems.front()\<close>, which after the ascending sort is the splittable
  item with the smallest far distance. Behind a visible item that ends at 10, with two
  splittable items that end at 5 and at 1000000000 (sorted) and a projection that reaches
  from 1 to 1000000000000, the comparison is made with 5: no back span is inserted, the
  outermost span ends at 100000, and no span covers the far distance 1000000000 of the
  farthest splittable item. With that item alone in the splittable list, the back span up
  to 1000000000 is inserted.
\<close>

theorem farthest_splittable_not_covered:
  "sorted (map VisibleItem.farDistance [exampleItem 1 5, exampleItem 1 1000000000]) \<and>
   VisibleItem.farDistance (last [exampleItem 1 5, exampleItem 1 1000000000]) = 1000000000 \<and>
   PlanarProjection.farDistance (exampleProjection 1 1000000000000) = 1000000000000 \<and>
   extendDepthSpans (exampleProjection 1 1000000000000) [exampleItem 1 5, exampleItem 1 1000000000]
       (splitDepthBuffer nearItem) (coalesceDepthBuffer (splitDepthBuffer nearItem)) =
     Some (Inr
       [\<lparr> backItemIndex = 0, itemCount = 0,
           DepthBufferSpan.farDistance = 100000, DepthBufferSpan.nearDistance = 10 \<rparr>,
        \<lparr> backItemIndex = 0, itemCount = 1,
           DepthBufferSpan.farDistance = 10, DepthBufferSpan.nearDistance = 1 \<rparr>]) \<and>
   extendDepthSpans (exampleProjection 1 1000000000000) [exampleItem 1 1000000000]
       (splitDepthBuffer nearItem) (coalesceDepthBuffer (splitDepthBuffer nearItem)) =
     Some (Inr
       [\<lparr> backItemIndex = 0, itemCount = 0,
           DepthBufferSpan.farDistance = 10000000000000, DepthBufferSpan.nearDistance = 1000000000 \<rparr>,
        \<lparr> backItemIndex = 0, itemCount = 0,
           DepthBufferSpan.farDistance = 1000000000, DepthBufferSpan.nearDistance = 10 \<rparr>,
        \<lparr> backItemIndex = 0, itemCount = 1,
           DepthBufferSpan.farDistance = 10, DepthBufferSpan.nearDistance = 1 \<rparr>])"
proof -
  have "extendDepthSpans (exampleProjection 1 1000000000000) [exampleItem 1 5, exampleItem 1 1000000000]
       (splitDepthBuffer nearItem) (coalesceDepthBuffer (splitDepthBuffer nearItem)) =
     Some (Inr
       [\<lparr> backItemIndex = 0, itemCount = 0,
           DepthBufferSpan.farDistance = 100000, DepthBufferSpan.nearDistance = 10 \<rparr>,
        \<lparr> backItemIndex = 0, itemCount = 1,
           DepthBufferSpan.farDistance = 10, DepthBufferSpan.nearDistance = 1 \<rparr>])"
    unfolding coalesce_nearItem
    by (simp add: nearItem_def splitDepthBuffer_def splitStep_def
        extendDepthSpans_def addBackSpan_def addFrontSpans.simps outerBackSpan_def
        exampleProjection_def exampleItem_def MaxFarNearRatio_def)
  moreover have "sorted (map VisibleItem.farDistance [exampleItem 1 5, exampleItem 1 1000000000])"
    "VisibleItem.farDistance (last [exampleItem 1 5, exampleItem 1 1000000000]) = 1000000000"
    "PlanarProjection.farDistance (exampleProjection 1 1000000000000) = 1000000000000"
    by (simp_all add: exampleItem_def exampleProjection_def)
  ultimately show ?thesis using extend_nearItem by simp
qed

section \<open>renderView as a whole\<close>

text \<open>
  Visiting entities changes the two item lists only, and does not look at the spans of an
  earlier call.
\<close>

lemma addVisibleItem_frame:
  "addVisibleItem ent geom pos crp csp orient nearAdjust r =
     r\<lparr> m_visibleItems := m_visibleItems (addVisibleItem ent geom pos crp csp orient nearAdjust r),
        m_splittableItems := m_splittableItems (addVisibleItem ent geom pos crp csp orient nearAdjust r) \<rparr>"
  by (simp add: addVisibleItem_def)

lemma addVisibleItem_stale:
  "addVisibleItem ent geom pos crp csp orient nearAdjust
       (r\<lparr> m_depthBufferSpans := D, m_mergedDepthBufferSpans := M \<rparr>) =
     (addVisibleItem ent geom pos crp csp orient nearAdjust r)
       \<lparr> m_depthBufferSpans := D, m_mergedDepthBufferSpans := M \<rparr>"
  by (simp add: addVisibleItem_def)

lemma visitVisualizer_frame:
  "visitVisualizer ent pos crp csp nearAdjust r v =
     r\<lparr> m_visibleItems := m_visibleItems (visitVisualizer ent pos crp csp nearAdjust r v),
        m_splittableItems := m_splittableItems (visitVisualizer ent pos crp csp nearAdjust r v) \<rparr>"
  unfolding visitVisualizer_def
  by (auto split: DepthAdjustment.splits option.splits intro: addVisibleItem_frame)

lemma visitVisualizer_stale:
  "visitVisualizer ent pos crp csp nearAdjust
       (r\<lparr> m_depthBufferSpans := D, m_mergedDepthBufferSpans := M \<rparr>) v =
     (visitVisualizer ent pos crp csp nearAdjust r v)
       \<lparr> m_depthBufferSpans := D, m_mergedDepthBufferSpans := M \<rparr>"
  unfolding visitVisualizer_def
  by (auto split: DepthAdjustment.splits option.splits simp add: addVisibleItem_stale)

lemma foldl_frame:
  assumes "\<And>r x. f r x =
      r\<lparr> m_visibleItems := m_visibleItems (f r x), m_splittableItems := m_splittableItems (f r x) \<rparr>"
  shows "foldl f r xs =
      r\<lparr> m_visibleItems := m_visibleItems (foldl f r xs),
         m_splittableItems := m_splittableItems (foldl f r xs) \<rparr>"
proof (induction xs arbitrary: r)
  case Nil
  show ?case by simp
next
  case (Cons x xs)
  have "foldl f r (x # xs) = foldl f (f r x) xs" by simp
  also have "\<dots> = (f r x)\<lparr> m_visibleItems := m_visibleItems (foldl f (f r x) xs),
         m_splittableItems := m_splittableItems (foldl f (f r x) xs) \<rparr>"
    by (rule Cons.IH)
  also have "\<dots> = (r\<lparr> m_visibleItems := m_visibleItems (f r x),
                         m_splittableItems := m_splittableItems (f r x) \<rparr>)
        \<lparr> m_visibleItems := m_visibleItems (foldl f (f r x) xs),
         m_splittableItems := m_splittableItems (foldl f (f r x) xs) \<rparr>"
    using assms [of r x] by simp
  finally show ?case by simp
qed

lemma foldl_stale:
  assumes "\<And>r x. f (r\<lparr> m_depthBufferSpans := D, m_mergedDepthBufferSpans := M \<rparr>) x =
      (f r x)\<lparr> m_depthBufferSpans := D, m_mergedDepthBufferSpans := M \<rparr>"
  shows "foldl f (r\<lparr> m_depthBufferSpans := D, m_mergedDepthBufferSpans := M \<rparr>) xs =
      (foldl f r xs)\<lparr> m_depthBufferSpans := D, m_mergedDepthBufferSpans := M \<rparr>"
  by (induction xs arbitrary: r) (simp_all add: assms)

lemma visitEntity_frame:
  "visitEntity cameraPosition cameraOrient pxSize nearAdjust r ent =
     r\<lparr> m_visibleItems := m_visibleItems (visitEntity cameraPosition cameraOrient pxSize nearAdjust r ent),
        m_splittableItems := m_splittableItems (visitEntity cameraPosition cameraOrient pxSize nearAdjust r ent) \<rparr>"
proof (cases "Entity.isVisible ent (m_currentTime r)")
  case False
  then show ?thesis by (simp add: visitEntity_def)
next
  case True
  let ?start = "case Entity.geometry ent of
             Some g \<Rightarrow>
               if \<not> sizeCull (Entity.geometry ent)
                      (vnorm (vsub (Entity.position ent (m_currentTime r)) cameraPosition)) pxSize
               then addVisibleItem ent g (Entity.position ent (m_currentTime r))
                      (vsub (Entity.position ent (m_currentTime r)) cameraPosition)
                      (conjugateRotate cameraOrient
                         (vsub (Entity.position ent (m_currentTime r)) cameraPosition))
                      (Entity.orientation ent (m_currentTime r)) nearAdjust r
               else r
           | None \<Rightarrow> r"
  let ?f = "visitVisualizer ent (Entity.position ent (m_currentTime r))
             (vsub (Entity.position ent (m_currentTime r)) cameraPosition)
             (conjugateRotate cameraOrient (vsub (Entity.position ent (m_currentTime r)) cameraPosition))
             nearAdjust"
  let ?vs = "if visualizers ent \<noteq> [] \<and> m_visualizersEnabled r then visualizers ent else []"
  have s: "?start = r\<lparr> m_visibleItems := m_visibleItems ?start,
                       m_splittableItems := m_splittableItems ?start \<rparr>"
    by (auto split: option.splits intro: addVisibleItem_frame)
  have "foldl ?f ?start ?vs = ?start\<lparr> m_visibleItems := m_visibleItems (foldl ?f ?start ?vs),
         m_splittableItems := m_splittableItems (foldl ?f ?start ?vs) \<rparr>"
    by (rule foldl_frame) (rule visitVisualizer_frame)
  also have "\<dots> = (r\<lparr> m_visibleItems := m_visibleItems ?start,
                       m_splittableItems := m_splittableItems ?start \<rparr>)
        \<lparr> m_visibleItems := m_visibleItems (foldl ?f ?start ?vs),
         m_splittableItems := m_splittableItems (foldl ?f ?start ?vs) \<rparr>"
    using s by simp
  finally have "foldl ?f ?start ?vs = r\<lparr> m_visibleItems := m_visibleItems (foldl ?f ?start ?vs),
         m_splittableItems := m_splittableItems (foldl ?f ?start ?vs) \<rparr>"
    by simp
  moreover have "visitEntity cameraPosition cameraOrient pxSize nearAdjust r ent = foldl ?f ?start ?vs"
    using True by (simp add: visitEntity_def)
  ultimately show ?thesis by simp
qed

lemma visitEntity_stale:
  "visitEntity cameraPosition cameraOrient pxSize nearAdjust
       (r\<lparr> m_depthBufferSpans := D, m_mergedDepthBufferSpans := M \<rparr>) ent =
     (visitEntity cameraPosition cameraOrient pxSize nearAdjust r ent)
       \<lparr> m_depthBufferSpans := D, m_mergedDepthBufferSpans := M \<rparr>"
proof (cases "Entity.isVisible ent (m_currentTime r)")
  case False
  then show ?thesis by (simp add: visitEntity_def)
next
  case True
  let ?f = "visitVisualizer ent (Entity.position ent (m_currentTime r))
             (vsub (Entity.position ent (m_currentTime r)) cameraPosition)
             (conjugateRotate cameraOrient (vsub (Entity.position ent (m_currentTime r)) cameraPosition))
             nearAdjust"
  have "foldl ?f (s\<lparr> m_depthBufferSpans := D, m_mergedDepthBufferSpans := M \<rparr>) vs =
      (foldl ?f s vs)\<lparr> m_depthBufferSpans := D, m_mergedDepthBufferSpans := M \<rparr>" for s vs
    by (rule foldl_stale) (rule visitVisualizer_stale)
  with True show ?thesis
    by (simp add: visitEntity_def addVisibleItem_stale split: option.splits)
qed

lemma viewContext_idem:
  "viewContext cameraOrient projection viewport (viewContext cameraOrient projection viewport rc0) =
     viewContext cameraOrient projection viewport rc0"
  by (simp add: viewContext_def)

lemma collectVisible_frame:
  "collectVisible sortItems sortLights cameraPosition cameraOrient projection viewport universe rc r =
     r\<lparr> m_renderContext := Some rc, m_viewFrustum := frustum projection,
        m_visibleLightSources :=
          m_visibleLightSources (collectVisible sortItems sortLights cameraPosition cameraOrient
            projection viewport universe rc r),
        m_visibleItems :=
          m_visibleItems (collectVisible sortItems sortLights cameraPosition cameraOrient
            projection viewport universe rc r),
        m_splittableItems :=
          m_splittableItems (collectVisible sortItems sortLights cameraPosition cameraOrient
            projection viewport universe rc r) \<rparr>"
proof -
  let ?r2 = "buildVisibleLightSourceList sortLights cameraPosition rc
      (r\<lparr> m_renderContext := Some rc, m_viewFrustum := frustum projection,
          m_visibleItems := [], m_splittableItems := [] \<rparr>)"
  let ?visit = "visitEntity cameraPosition cameraOrient (pixelSize rc)
                        (nearPlaneFovAdjustment projection viewport)"
  let ?r3 = "foldl ?visit ?r2 (entities universe)"
  have frame: "?r3 = ?r2\<lparr> m_visibleItems := m_visibleItems ?r3, m_splittableItems := m_splittableItems ?r3 \<rparr>"
    by (rule foldl_frame) (rule visitEntity_frame)
  have cv: "collectVisible sortItems sortLights cameraPosition cameraOrient projection viewport universe rc r =
      ?r3\<lparr> m_visibleItems := sortItems (m_visibleItems ?r3),
           m_splittableItems := sortItems (m_splittableItems ?r3) \<rparr>"
    by (simp add: collectVisible_def Let_def)
  have "?r3\<lparr> m_visibleItems := a, m_splittableItems := b \<rparr> =
      r\<lparr> m_renderContext := Some rc, m_viewFrustum := frustum projection,
         m_visibleLightSources := m_visibleLightSources ?r2,
         m_visibleItems := a, m_splittableItems := b \<rparr>" for a b
    by (subst frame) (simp add: buildVisibleLightSourceList_def)
  moreover have "m_visibleLightSources ?r3 = m_visibleLightSources ?r2"
    by (subst frame) simp
  ultimately show ?thesis unfolding cv by simp
qed

lemma collectVisible_stale:
  "collectVisible sortItems sortLights cameraPosition cameraOrient projection viewport universe rc
       (r\<lparr> m_renderContext := c, m_viewFrustum := f, m_visibleLightSources := l,
           m_visibleItems := v, m_splittableItems := s,
           m_depthBufferSpans := D, m_mergedDepthBufferSpans := M \<rparr>) =
     (collectVisible sortItems sortLights cameraPosition cameraOrient projection viewport universe rc r)
       \<lparr> m_depthBufferSpans := D, m_mergedDepthBufferSpans := M \<rparr>"
proof -
  let ?r2 = "buildVisibleLightSourceList sortLights cameraPosition rc
      (r\<lparr> m_renderContext := Some rc, m_viewFrustum := frustum projection,
          m_visibleItems := [], m_splittableItems := [] \<rparr>)"
  let ?visit = "visitEntity cameraPosition cameraOrient (pixelSize rc)
                        (nearPlaneFovAdjustment projection viewport)"
  have start: "buildVisibleLightSourceList sortLights cameraPosition rc
      (r\<lparr> m_renderContext := c, m_viewFrustum := f, m_visibleLightSources := l,
           m_visibleItems := v, m_splittableItems := s,
           m_depthBufferSpans := D, m_mergedDepthBufferSpans := M,
           m_renderContext := Some rc, m_viewFrustum := frustum projection,
           m_visibleItems := [], m_splittableItems := [] \<rparr>) =
      ?r2\<lparr> m_depthBufferSpans := D, m_mergedDepthBufferSpans := M \<rparr>"
    by (simp add: buildVisibleLightSourceList_def)
  have "foldl ?visit (?r2\<lparr> m_depthBufferSpans := D, m_mergedDepthBufferSpans := M \<rparr>) (entities universe) =
      (foldl ?visit ?r2 (entities universe))\<lparr> m_depthBufferSpans := D, m_mergedDepthBufferSpans := M \<rparr>"
    by (rule foldl_stale) (rule visitEntity_stale)
  then show ?thesis
    unfolding collectVisible_def Let_def start by simp
qed


text \<open>
  The item lists that \<^verbatim>\<open>renderView\<close> hands to \<^verbatim>\<open>splitDepthBuffer\<close> and to the
  block that adds the extra spans are sorted ascending by far distance and hold only items
  with a positive far distance and a near distance below it.
\<close>

lemma addVisibleItem_admitted:
  assumes "list_all admitted (m_visibleItems r)" and "list_all admitted (m_splittableItems r)"
  shows "list_all admitted (m_visibleItems (addVisibleItem ent geom pos crp csp orient nearAdjust r)) \<and>
         list_all admitted (m_splittableItems (addVisibleItem ent geom pos crp csp orient nearAdjust r))"
  using assms by (simp add: addVisibleItem_def newVisibleItem_def admitted_def)

lemma visitVisualizer_admitted:
  assumes "list_all admitted (m_visibleItems r)" and "list_all admitted (m_splittableItems r)"
  shows "list_all admitted (m_visibleItems (visitVisualizer ent pos crp csp nearAdjust r v)) \<and>
         list_all admitted (m_splittableItems (visitVisualizer ent pos crp csp nearAdjust r v))"
  unfolding visitVisualizer_def
  using assms addVisibleItem_admitted [OF assms]
  by (auto split: DepthAdjustment.splits option.splits)

lemma foldl_admitted:
  assumes step: "\<And>r x. list_all admitted (m_visibleItems r) \<Longrightarrow> list_all admitted (m_splittableItems r) \<Longrightarrow>
      list_all admitted (m_visibleItems (f r x)) \<and> list_all admitted (m_splittableItems (f r x))"
  shows "list_all admitted (m_visibleItems r) \<Longrightarrow> list_all admitted (m_splittableItems r) \<Longrightarrow>
      list_all admitted (m_visibleItems (foldl f r xs)) \<and>
      list_all admitted (m_splittableItems (foldl f r xs))"
proof (induction xs arbitrary: r)
  case Nil
  then show ?case by simp
next
  case (Cons x xs)
  from step [OF Cons.prems] Cons.IH [of "f r x"] show ?case by simp
qed

lemma visitEntity_admitted:
  assumes "list_all admitted (m_visibleItems r)" and "list_all admitted (m_splittableItems r)"
  shows "list_all admitted (m_visibleItems (visitEntity cameraPosition cameraOrient pxSize nearAdjust r ent)) \<and>
         list_all admitted (m_splittableItems (visitEntity cameraPosition cameraOrient pxSize nearAdjust r ent))"
proof (cases "Entity.isVisible ent (m_currentTime r)")
  case False
  with assms show ?thesis by (simp add: visitEntity_def)
next
  case True
  let ?start = "case Entity.geometry ent of
             Some g \<Rightarrow>
               if \<not> sizeCull (Entity.geometry ent)
                      (vnorm (vsub (Entity.position ent (m_currentTime r)) cameraPosition)) pxSize
               then addVisibleItem ent g (Entity.position ent (m_currentTime r))
                      (vsub (Entity.position ent (m_currentTime r)) cameraPosition)
                      (conjugateRotate cameraOrient
                         (vsub (Entity.position ent (m_currentTime r)) cameraPosition))
                      (Entity.orientation ent (m_currentTime r)) nearAdjust r
               else r
           | None \<Rightarrow> r"
  have s: "list_all admitted (m_visibleItems ?start) \<and> list_all admitted (m_splittableItems ?start)"
    using assms addVisibleItem_admitted [OF assms] by (auto split: option.splits)
  have "list_all admitted (m_visibleItems (foldl f ?start vs)) \<and>
      list_all admitted (m_splittableItems (foldl f ?start vs))"
    if "f = visitVisualizer ent p c cs nearAdjust" for f p c cs vs
    using s unfolding that
    by (intro foldl_admitted) (auto dest: visitVisualizer_admitted)
  then show ?thesis using True by (simp add: visitEntity_def)
qed

lemma std_sort_contract_set:
  "std_sort_contract lt srt \<Longrightarrow> set (srt xs) = set xs"
  by (metis std_sort_contract_def set_mset_mset)

lemma collectVisible_items:
  assumes "std_sort_contract visibleItemPredicate sortItems"
  shows
    "sorted (map VisibleItem.farDistance
       (m_visibleItems (collectVisible sortItems sortLights cameraPosition cameraOrient projection
          viewport universe rc r))) \<and>
     list_all admitted
       (m_visibleItems (collectVisible sortItems sortLights cameraPosition cameraOrient projection
          viewport universe rc r)) \<and>
     sorted (map VisibleItem.farDistance
       (m_splittableItems (collectVisible sortItems sortLights cameraPosition cameraOrient projection
          viewport universe rc r))) \<and>
     list_all admitted
       (m_splittableItems (collectVisible sortItems sortLights cameraPosition cameraOrient projection
          viewport universe rc r))"
proof -
  let ?r2 = "buildVisibleLightSourceList sortLights cameraPosition rc
      (r\<lparr> m_renderContext := Some rc, m_viewFrustum := frustum projection,
          m_visibleItems := [], m_splittableItems := [] \<rparr>)"
  let ?visit = "visitEntity cameraPosition cameraOrient (pixelSize rc)
                        (nearPlaneFovAdjustment projection viewport)"
  let ?r3 = "foldl ?visit ?r2 (entities universe)"
  have cv: "collectVisible sortItems sortLights cameraPosition cameraOrient projection viewport universe rc r =
      ?r3\<lparr> m_visibleItems := sortItems (m_visibleItems ?r3),
           m_splittableItems := sortItems (m_splittableItems ?r3) \<rparr>"
    by (simp add: collectVisible_def Let_def)
  have "list_all admitted (m_visibleItems ?r3) \<and> list_all admitted (m_splittableItems ?r3)"
    by (intro foldl_admitted) (auto dest: visitEntity_admitted simp add: buildVisibleLightSourceList_def)
  then have adm: "list_all admitted (sortItems (m_visibleItems ?r3))"
      "list_all admitted (sortItems (m_splittableItems ?r3))"
    using std_sort_contract_set [OF assms] by (simp_all add: list_all_iff)
  have srt: "sorted (map VisibleItem.farDistance (sortItems xs))" for xs
  proof -
    from assms have "sorted_wrt (\<lambda>a b. \<not> visibleItemPredicate b a) (sortItems xs)"
      by (simp add: std_sort_contract_def)
    then show ?thesis
      by (simp add: sorted_wrt_map visibleItemPredicate_def not_less)
  qed
  show ?thesis unfolding cv using adm srt by simp
qed

text \<open>
  With a view set open, a render context and a projection whose near distance is positive,
  \<^verbatim>\<open>renderView\<close> returns \<^verbatim>\<open>RenderOk\<close>.
\<close>

lemma extendDepthSpans_returns:
  assumes "0 < PlanarProjection.nearDistance projection"
  shows "\<exists>merged. extendDepthSpans projection splittable spans (coalesceDepthBuffer spans)
      = Some (Inr merged)"
proof (cases splittable)
  case Nil
  then show ?thesis by (simp add: extendDepthSpans_def)
next
  case (Cons firstItem others)
  let ?furthest = "min (VisibleItem.farDistance firstItem) (PlanarProjection.farDistance projection)"
  have "\<exists>withBack. addBackSpan projection ?furthest spans (coalesceDepthBuffer spans) = Inr withBack"
  proof (cases "spans = []")
    case True
    then show ?thesis by (simp add: addBackSpan_def)
  next
    case False
    then have "coalesceDepthBuffer spans \<noteq> []" by (rule coalesceDepthBuffer_not_Nil)
    with False show ?thesis by (simp add: addBackSpan_def split: list.splits)
  qed
  then obtain withBack where
    b: "addBackSpan projection ?furthest spans (coalesceDepthBuffer spans) = Inr withBack" ..
  from addFrontSpans_returns [OF assms, of withBack] obtain fronts where
    "addFrontSpans (PlanarProjection.nearDistance projection) withBack = Some (withBack @ fronts)"
    by blast
  with b show ?thesis by (simp add: extendDepthSpans_def Cons)
qed

lemma renderView_returns:
  assumes "m_universe r = Some universe" and "m_renderContext r = Some rc0"
    and "0 < PlanarProjection.nearDistance projection"
  shows "\<exists>r'. renderView sortItems sortLights cameraPosition cameraOrient projection viewport r
      = Some (Inr (RenderOk, r'))"
proof -
  let ?cv = "collectVisible sortItems sortLights cameraPosition cameraOrient projection
      viewport universe (viewContext cameraOrient projection viewport rc0) r"
  from extendDepthSpans_returns [OF assms(3), of "m_splittableItems ?cv"
      "splitDepthBuffer (m_visibleItems ?cv)"]
  obtain merged where
    "extendDepthSpans projection (m_splittableItems ?cv) (splitDepthBuffer (m_visibleItems ?cv))
       (coalesceDepthBuffer (splitDepthBuffer (m_visibleItems ?cv))) = Some (Inr merged)" ..
  then show ?thesis
    by (simp add: renderView_def assms(1,2) Let_def)
qed


text \<open>
  Claim C9. When \<^verbatim>\<open>renderView\<close> has returned, a second call with the same camera
  position, camera orientation, projection and viewport (and the same sorts) on the state
  that the first call left returns the same status and leaves the state as it is: the same
  visible items, the same raw and merged spans (bounds, back indices and item counts) and
  the same visible light sources in the same order. Nothing that the first call stored is
  read by the second before it is overwritten.
\<close>

theorem renderView_idempotent:
  assumes "renderView sortItems sortLights cameraPosition cameraOrient projection viewport r
      = Some (Inr (status, r'))"
  shows "renderView sortItems sortLights cameraPosition cameraOrient projection viewport r'
      = Some (Inr (status, r'))"
proof (cases "m_universe r")
  case None
  with assms have "status = RenderNoViewSet" "r' = r"
    by (simp_all add: renderView_def)
  with None show ?thesis by (simp add: renderView_def)
next
  case (Some universe)
  from assms Some obtain rc0 where ctx: "m_renderContext r = Some rc0"
    by (cases "m_renderContext r") (simp_all add: renderView_def)
  define rc where "rc = viewContext cameraOrient projection viewport rc0"
  define cv where "cv = collectVisible sortItems sortLights cameraPosition cameraOrient projection
      viewport universe rc r"
  define D where "D = splitDepthBuffer (m_visibleItems cv)"
  have first: "renderView sortItems sortLights cameraPosition cameraOrient projection viewport r =
      (case extendDepthSpans projection (m_splittableItems cv) D (coalesceDepthBuffer D) of
         None \<Rightarrow> None
       | Some (Inl fault) \<Rightarrow> Some (Inl fault)
       | Some (Inr merged) \<Rightarrow>
           Some (Inr (RenderOk, cv\<lparr> m_depthBufferSpans := D, m_mergedDepthBufferSpans := merged \<rparr>)))"
    by (simp add: renderView_def Some ctx Let_def cv_def rc_def D_def split: option.splits sum.splits)
  from assms obtain M where
    ext: "extendDepthSpans projection (m_splittableItems cv) D (coalesceDepthBuffer D) = Some (Inr M)"
    and st: "status = RenderOk"
    and r': "r' = cv\<lparr> m_depthBufferSpans := D, m_mergedDepthBufferSpans := M \<rparr>"
    unfolding first by (auto split: option.splits sum.splits)
  have cvf: "cv = r\<lparr> m_renderContext := Some rc, m_viewFrustum := frustum projection,
        m_visibleLightSources := m_visibleLightSources cv,
        m_visibleItems := m_visibleItems cv,
        m_splittableItems := m_splittableItems cv \<rparr>"
    unfolding cv_def by (rule collectVisible_frame)
  have r'f: "r' = r\<lparr> m_renderContext := Some rc, m_viewFrustum := frustum projection,
        m_visibleLightSources := m_visibleLightSources cv,
        m_visibleItems := m_visibleItems cv,
        m_splittableItems := m_splittableItems cv,
        m_depthBufferSpans := D, m_mergedDepthBufferSpans := M \<rparr>"
    unfolding r' by (subst cvf) simp
  have u': "m_universe r' = Some universe" and c': "m_renderContext r' = Some rc"
    unfolding r'f by (simp_all add: Some)
  have rc': "viewContext cameraOrient projection viewport rc = rc"
    unfolding rc_def by (rule viewContext_idem)
  have cv': "collectVisible sortItems sortLights cameraPosition cameraOrient projection
      viewport universe rc r' = cv\<lparr> m_depthBufferSpans := D, m_mergedDepthBufferSpans := M \<rparr>"
    unfolding r'f cv_def by (rule collectVisible_stale)
  have second: "renderView sortItems sortLights cameraPosition cameraOrient projection viewport r' =
      (case extendDepthSpans projection (m_splittableItems cv) D (coalesceDepthBuffer D) of
         None \<Rightarrow> None
       | Some (Inl fault) \<Rightarrow> Some (Inl fault)
       | Some (Inr merged) \<Rightarrow>
           Some (Inr (RenderOk, cv\<lparr> m_depthBufferSpans := D, m_mergedDepthBufferSpans := merged \<rparr>)))"
    by (simp add: renderView_def u' c' rc' cv' Let_def D_def split: option.splits sum.splits)
  have "renderView sortItems sortLights cameraPosition cameraOrient projection viewport r' =
      Some (Inr (RenderOk, cv\<lparr> m_depthBufferSpans := D, m_mergedDepthBufferSpans := M \<rparr>))"
    unfolding second ext by simp
  then show ?thesis by (simp only: st r' [symmetric])
qed

lemma exampleProjection_fields:
  "fovY (exampleProjection n f) = pi / 2"
  "PlanarProjection.nearDistance (exampleProjection n f) = n"
  "PlanarProjection.farDistance (exampleProjection n f) = f"
  "frustum (exampleProjection n f) = exampleFrustum"
  by (simp_all add: exampleProjection_def)

lemma exampleFrustum_intersects: "intersects exampleFrustum c x"
  by (simp add: exampleFrustum_def)

lemma example_view:
  "viewContext identityRotation (exampleProjection n f) exampleViewport exampleContext = exampleContext"
  "nearPlaneFovAdjustment (exampleProjection n f) exampleViewport = 1 / 2"
  by (simp_all add: viewContext_def nearPlaneFovAdjustment_def exampleProjection_fields
      exampleViewport_def exampleContext_def aspectRatio_def tan_45 cos_45)

lemma sceneOpen_fields:
  "m_universe sceneOpen = Some sceneUniverse"
  "m_renderContext sceneOpen = Some exampleContext"
  "m_currentTime sceneOpen = 0"
  "m_visualizersEnabled sceneOpen = True"
  "m_lightSources sceneOpen =
     [sunItem, \<lparr> LightSourceItem.lightSource = Some lampA, LightSourceItem.position = (0, 0, -1) \<rparr>]"
  by (simp_all add: sceneOpen_def beginViewSet_def idleRenderer_def UniverseRenderer_new_def
      sceneUniverse_def exampleEntity_def)

lemma scene_collect:
  "m_visibleItems (collectVisible stableItemSort stableLightSort (0, 0, 0) identityRotation
      (exampleProjection 1 100) exampleViewport sceneUniverse exampleContext sceneOpen) =
     [newVisibleItem (exampleEntity (0, 0, -1) (Some smallSphere) None) smallSphere
        (0, 0, -1) (0, 0, -1) (0, 0, -1) identityRotation (1 / 2) exampleFrustum]"
  "m_splittableItems (collectVisible stableItemSort stableLightSort (0, 0, 0) identityRotation
      (exampleProjection 1 100) exampleViewport sceneUniverse exampleContext sceneOpen) =
     [newVisibleItem (exampleEntity (0, 0, -1) (Some sceneTrajectory) None) sceneTrajectory
        (0, 0, -1) (0, 0, -1) (0, 0, -1) identityRotation (1 / 2) exampleFrustum]"
  "m_visibleLightSources (collectVisible stableItemSort stableLightSort (0, 0, 0) identityRotation
      (exampleProjection 1 100) exampleViewport sceneUniverse exampleContext sceneOpen) =
     [visibleLight (0, 0, 0) sunItem, visibleLight (0, 0, 0) lampItemA]"
  by (simp_all add: collectVisible_def Let_def sceneOpen_fields example_view
      buildVisibleLightSourceList_def sceneUniverse_def visitEntity_def exampleEntity_def
      sizeCull_def projectedSize_def smallSphere_def sceneTrajectory_def exampleGeometry_def
      addVisibleItem_def itemFarDistance_def itemNearDistance_def vz_def vsub_def
      MinimumNearFarRatio_def MinimumNearPlaneDistance_def
      stableItemSort_def stableLightSort_def lightCull_def sunItem_def lampItemA_def lampA_def
      exampleContext_def exampleFrustum_def identityRotation_def
      idleRenderer_def UniverseRenderer_new_def beginViewSet_def sceneOpen_def
      visibleLight_def shadowFlag_def newVisibleItem_def vneg_def exampleProjection_fields)


lemma scene_renderView:
  "renderView stableItemSort stableLightSort (0, 0, 0) identityRotation
      (exampleProjection 1 100) exampleViewport sceneOpen =
     Some (Inr (RenderOk,
       (collectVisible stableItemSort stableLightSort (0, 0, 0) identityRotation
          (exampleProjection 1 100) exampleViewport sceneUniverse exampleContext sceneOpen)
       \<lparr> m_depthBufferSpans :=
           [\<lparr> backItemIndex = 0, itemCount = 1,
               DepthBufferSpan.farDistance = 3 / 2, DepthBufferSpan.nearDistance = 1 / 2000 \<rparr>],
          m_mergedDepthBufferSpans := sceneSpans \<rparr>))"
  by (simp add: renderView_def sceneOpen_fields example_view scene_collect Let_def
      splitDepthBuffer_def splitStep_def coalesceDepthBuffer_def coalesceLoop.simps mergeScan.simps
      extendDepthSpans_def addBackSpan_def addFrontSpans.simps outerBackSpan_def sceneSpans_def
      exampleProjection_fields MaxFarNearRatio_def newVisibleItem_def
      itemFarDistance_def itemNearDistance_def smallSphere_def sceneTrajectory_def
      exampleGeometry_def vz_def MinimumNearFarRatio_def MinimumNearPlaneDistance_def)


theorem renderView_idempotent_witness:
  "\<exists>r'.
     renderView stableItemSort stableLightSort (0, 0, 0) identityRotation
       (exampleProjection 1 100) exampleViewport sceneOpen = Some (Inr (RenderOk, r')) \<and>
     renderView stableItemSort stableLightSort (0, 0, 0) identityRotation
       (exampleProjection 1 100) exampleViewport r' = Some (Inr (RenderOk, r')) \<and>
     m_mergedDepthBufferSpans r' = sceneSpans \<and>
     m_visibleLightSources r' = [visibleLight (0, 0, 0) sunItem, visibleLight (0, 0, 0) lampItemA]"
proof -
  let ?r' = "(collectVisible stableItemSort stableLightSort (0, 0, 0) identityRotation
          (exampleProjection 1 100) exampleViewport sceneUniverse exampleContext sceneOpen)
       \<lparr> m_depthBufferSpans :=
           [\<lparr> backItemIndex = 0, itemCount = 1,
               DepthBufferSpan.farDistance = 3 / 2, DepthBufferSpan.nearDistance = 1 / 2000 \<rparr>],
          m_mergedDepthBufferSpans := sceneSpans \<rparr>"
  have "renderView stableItemSort stableLightSort (0, 0, 0) identityRotation
       (exampleProjection 1 100) exampleViewport ?r' = Some (Inr (RenderOk, ?r'))"
    by (rule renderView_idempotent [OF scene_renderView])
  moreover have "m_visibleLightSources ?r' = [visibleLight (0, 0, 0) sunItem, visibleLight (0, 0, 0) lampItemA]"
    by (simp add: scene_collect)
  moreover have "m_mergedDepthBufferSpans ?r' = sceneSpans" by simp
  ultimately show ?thesis using scene_renderView by blast
qed

end
